theory Spec2Isabelle
  imports Complex_Main "HOL-Library.AList"
begin

section \<open>Errors and outcomes\<close>

text \<open>
  Python exceptions raised by the modelled code. \<open>RuntimeError\<close> carries the message
  text of the source (format fields are kept as written in the source's format string);
  \<open>SolverException\<close> stands for whatever exception an external solver plugin raises.
\<close>

datatype error =
    RuntimeError string
  | ZeroDivisionError
  | AttributeError string
  | TypeError string
  | KeyError string
  | IndexError
  | ValueError string
  | SolverException string
  | OverflowError
  | AssertionError string

text \<open>A call either returns a value or raises.\<close>

datatype 'a outcome = Returned 'a | Raised error

section \<open>Process groups (mpi4py communicators)\<close>

text \<open>
  A communicator as one process sees it: the processes of the group in rank order and
  the calling process itself. \<open>Get_rank\<close> is the position of the caller in the group.
\<close>

record comm =
  members :: "nat list"
  me :: nat

fun index_of :: "nat list \<Rightarrow> nat \<Rightarrow> nat" where
  "index_of [] x = 0"
| "index_of (y # ys) x = (if y = x then 0 else Suc (index_of ys x))"

definition Get_size :: "comm \<Rightarrow> nat" where
  "Get_size c = length (members c)"

definition Get_rank :: "comm \<Rightarrow> nat" where
  "Get_rank c = index_of (members c) (me c)"

text \<open>
  \<open>Split\<close> is collective: every process of the group passes a colour and a key, both
  computed by the same program text from the process's rank in the group. The caller's
  new group holds the processes that passed the caller's colour, ordered by key (ties keep
  the old rank order).
\<close>

definition Split :: "comm \<Rightarrow> (nat \<Rightarrow> nat) \<Rightarrow> (nat \<Rightarrow> nat) \<Rightarrow> comm" where
  "Split c color key =
     (let r = Get_rank c;
          same = filter (\<lambda>q. color q = color r) [0..<Get_size c]
      in \<lparr>members = map (\<lambda>q. members c ! q) (sort_key key same), me = me c\<rparr>)"

text \<open>The world group of \<open>n_proc\<close> processes, seen from the process of rank \<open>g\<close>.\<close>

definition world :: "nat \<Rightarrow> nat \<Rightarrow> comm" where
  "world n_proc g = \<lparr>members = [0..<n_proc], me = g\<rparr>"

text \<open>The MPI calls a process performs, in program order.\<close>

datatype mpi_call =
    Call_Get_size
  | Call_Get_rank
  | Call_Split nat nat

section \<open>Topology build: \<open>_make_comms\<close>\<close>

definition color_floordiv :: "nat \<Rightarrow> nat \<Rightarrow> nat" where
  "color_floordiv n_spcomms global_rank = global_rank div n_spcomms"

definition color_mod :: "nat \<Rightarrow> nat \<Rightarrow> nat" where
  "color_mod n_spcomms global_rank = global_rank mod n_spcomms"

definition key_rank :: "nat \<Rightarrow> nat" where
  "key_rank global_rank = global_rank"

text \<open>
  \<open>make_comms haveMPI COMM_WORLD n_spcomms fullcomm\<close> returns the error or the pair
  \<open>(strata_comm, cylinder_comm)\<close>, together with the MPI calls made. Python's \<open>%\<close>
  raises on a zero divisor, which is written out.
\<close>

definition make_comms ::
  "bool \<Rightarrow> comm \<Rightarrow> nat \<Rightarrow> comm option \<Rightarrow> (error + comm \<times> comm) \<times> mpi_call list" where
  "make_comms haveMPI COMM_WORLD n_spcomms fullcomm_arg =
     (if \<not> haveMPI then (Inl (RuntimeError ''make_comms called, but cannot import mpi4py''), [])
      else
        let fullcomm = (case fullcomm_arg of None \<Rightarrow> COMM_WORLD | Some c \<Rightarrow> c);
            n_proc = Get_size fullcomm
        in if n_spcomms = 0 then (Inl ZeroDivisionError, [Call_Get_size])
           else if n_proc mod n_spcomms \<noteq> 0 then
             (Inl (RuntimeError ''Need a multiple of {n_spcomms} processes (got {n_proc})''),
              [Call_Get_size])
           else
             let global_rank = Get_rank fullcomm;
                 strata_comm = Split fullcomm (color_floordiv n_spcomms) key_rank;
                 cylinder_comm = Split fullcomm (color_mod n_spcomms) key_rank
             in (Inr (strata_comm, cylinder_comm),
                 [Call_Get_size, Call_Get_rank,
                  Call_Split (color_floordiv n_spcomms global_rank) (key_rank global_rank),
                  Call_Split (color_mod n_spcomms global_rank) (key_rank global_rank)]))"

fun is_Split :: "mpi_call \<Rightarrow> bool" where
  "is_Split (Call_Split c k) = True"
| "is_Split _ = False"

text \<open>
  What the build gives the process of rank \<open>q\<close> in a world of \<open>n_proc\<close> processes:
  its rank in its strata group, the members of its two groups, and the size of its
  cylinder group. \<open>hubs_in\<close> selects the processes of a group whose strata rank is 0.
\<close>

definition strata_rank_of :: "nat \<Rightarrow> nat \<Rightarrow> nat \<Rightarrow> nat option" where
  "strata_rank_of n_spcomms n_proc q =
     (case fst (make_comms True (world n_proc q) n_spcomms None) of
        Inr (strata_comm, cylinder_comm) \<Rightarrow> Some (Get_rank strata_comm)
      | Inl e \<Rightarrow> None)"

definition strata_members_of :: "nat \<Rightarrow> nat \<Rightarrow> nat \<Rightarrow> nat list" where
  "strata_members_of n_spcomms n_proc q =
     (case fst (make_comms True (world n_proc q) n_spcomms None) of
        Inr (strata_comm, cylinder_comm) \<Rightarrow> members strata_comm
      | Inl e \<Rightarrow> [])"

definition cylinder_members_of :: "nat \<Rightarrow> nat \<Rightarrow> nat \<Rightarrow> nat list" where
  "cylinder_members_of n_spcomms n_proc q =
     (case fst (make_comms True (world n_proc q) n_spcomms None) of
        Inr (strata_comm, cylinder_comm) \<Rightarrow> members cylinder_comm
      | Inl e \<Rightarrow> [])"

definition cylinder_size_of :: "nat \<Rightarrow> nat \<Rightarrow> nat \<Rightarrow> nat option" where
  "cylinder_size_of n_spcomms n_proc q =
     (case fst (make_comms True (world n_proc q) n_spcomms None) of
        Inr (strata_comm, cylinder_comm) \<Rightarrow> Some (Get_size cylinder_comm)
      | Inl e \<Rightarrow> None)"

definition hubs_in :: "nat \<Rightarrow> nat \<Rightarrow> nat list \<Rightarrow> nat list" where
  "hubs_in n_spcomms n_proc grp = filter (\<lambda>q. strata_rank_of n_spcomms n_proc q = Some 0) grp"

section \<open>The orchestrator: \<open>WheelSpinner\<close>\<close>

subsection \<open>Dictionaries that control hub and spoke creation\<close>

text \<open>
  A Python dict is an association list in insertion order. \<open>d[k] = v\<close> is
  \<^const>\<open>AList.update\<close> (overwrite in place, or append), \<open>d.pop(k)\<close> removes the key.
\<close>

datatype pyval =
    PyClass string
  | PyDict "(string \<times> pyval) list"
  | PyComm comm

type_synonym dict = "(string \<times> pyval) list"

definition contains :: "string \<Rightarrow> dict \<Rightarrow> bool" where
  "contains k d = (map_of d k \<noteq> None)"

definition setdefault_empty :: "string \<Rightarrow> dict \<Rightarrow> dict" where
  \<comment> \<open>\<open>if k not in d: d[k] = dict()\<close>\<close>
  "setdefault_empty k d = (if contains k d then d else AList.update k (PyDict []) d)"

definition key_conversion :: "(string \<times> string) list" where
  "key_conversion =
     [(''hub_class'', ''spcomm_class''), (''hub_kwargs'', ''spcomm_kwargs''),
      (''spoke_class'', ''spcomm_class''), (''spoke_kwargs'', ''spcomm_kwargs'')]"

definition move_key :: "string \<Rightarrow> string \<Rightarrow> dict \<Rightarrow> dict" where
  \<comment> \<open>\<open>if oldk in d: d[newk] = d.pop(oldk)\<close>\<close>
  "move_key oldk newk d =
     (case map_of d oldk of
        None \<Rightarrow> d
      | Some v \<Rightarrow> AList.update newk v (AList.delete oldk d))"

fun convert_keys :: "(string \<times> string) list \<Rightarrow> dict \<Rightarrow> dict" where
  \<comment> \<open>\<open>for oldk, newk in _key_conversion.items(): ...\<close>\<close>
  "convert_keys [] d = d"
| "convert_keys ((oldk, newk) # kc) d = convert_keys kc (move_key oldk newk d)"

text \<open>
  The checks on the spoke dictionaries run in list order; a dictionary that passed keeps
  the defaults it was given when a later one raises.
\<close>

fun check_spokes :: "dict list \<Rightarrow> error option \<times> dict list" where
  "check_spokes [] = (None, [])"
| "check_spokes (spoke_dict # rest) =
     (if \<not> contains ''spoke_class'' spoke_dict then
        (Some (RuntimeError ''Each spoke_dict must contain a 'spoke_class' key specifying the spoke class to use''),
         spoke_dict # rest)
      else if \<not> contains ''opt_class'' spoke_dict then
        (Some (RuntimeError ''Each spoke_dict must contain an 'opt_class' key specifying the SPBase class to use (e.g. PHBase, etc.)''),
         spoke_dict # rest)
      else
        let d = setdefault_empty ''opt_kwargs'' (setdefault_empty ''spoke_kwargs'' spoke_dict)
        in (case check_spokes rest of (e, rest') \<Rightarrow> (e, d # rest')))"

subsection \<open>The hub or spoke object and the calls made on it\<close>

text \<open>
  The hub and spoke classes, the optimisation classes and \<open>global_toc\<close> are external.
  A call on them is recorded in program order; the environment decides, from the calls
  made so far, whether a call raises. The fields of \<open>spcomm_obj\<close> are the attributes of
  the hub or spoke object that the orchestrator reads after the run.
\<close>

datatype call =
    MPI mpi_call
  | Construct_opt
  | Construct_spcomm
  | Make_windows
  | Setup_hub
  | Main
  | Send_terminate
  | Finalize
  | Cylinder_Barrier
  | Fullcomm_Barrier
  | Hub_finalize
  | Free_windows
  | Global_toc string "bool option"
  | Bcast
  | Opt_write_first_stage_solution string
  | Opt_write_tree_solution string

record node =
  node_name :: string
  nonant_vardata_list :: "real option list"

record spcomm_obj =
  sp_BestInnerBound :: "real option"
  sp_BestOuterBound :: "real option"
  sp_global_rank :: nat
  sp_strata_rank :: nat
  sp_last_ib_idx :: "nat option"
  sp_local_scenarios :: "(string \<times> node list) list"

record env =
  haveMPI :: bool
  COMM_WORLD :: comm
  raises :: "call list \<Rightarrow> call \<Rightarrow> error option"
  spcomm_made :: spcomm_obj
  root_best_strata_rank :: int

fun do_calls ::
  "(call list \<Rightarrow> call \<Rightarrow> error option) \<Rightarrow> call list \<Rightarrow> call list \<Rightarrow> error option \<times> call list" where
  "do_calls rs hist [] = (None, hist)"
| "do_calls rs hist (c # cs) =
     (case rs hist c of
        Some e \<Rightarrow> (Some e, hist @ [c])
      | None \<Rightarrow> do_calls rs (hist @ [c]) cs)"

subsection \<open>\<open>WheelSpinner\<close>\<close>

text \<open>
  The attributes of an instance. \<open>ran\<close> is \<open>_ran\<close>. An attribute that \<open>run\<close> assigns
  is \<open>None\<close> while the instance does not have it. A bound is itself \<open>None\<close> or a number.
\<close>

record WheelSpinner =
  hub_dict :: dict
  list_of_spoke_dict :: "dict list"
  ran :: bool
  spcomm :: "spcomm_obj option"
  spcomm_dict :: "dict option"
  global_rank :: "nat option"
  strata_rank :: "nat option"
  cylinder_rank :: "nat option"
  BestInnerBound :: "real option option"
  BestOuterBound :: "real option option"

definition WheelSpinner_init :: "bool \<Rightarrow> dict \<Rightarrow> dict list \<Rightarrow> error + WheelSpinner" where
  "WheelSpinner_init have_mpi hub spokes =
     (if \<not> have_mpi then Inl (RuntimeError ''spin_the_wheel called, but cannot import mpi4py'')
      else Inr \<lparr>hub_dict = hub, list_of_spoke_dict = spokes, ran = False,
                spcomm = None, spcomm_dict = None, global_rank = None, strata_rank = None,
                cylinder_rank = None, BestInnerBound = None, BestOuterBound = None\<rparr>)"

definition name_of :: "pyval \<Rightarrow> string" where
  \<comment> \<open>\<open>cls.__name__\<close>\<close>
  "name_of v = (case v of PyClass n \<Rightarrow> n | _ \<Rightarrow> [])"

text \<open>
  The calls of \<open>run\<close> from the construction of the local objects to the last barrier,
  for a process with the given ranks.
\<close>

definition run_calls :: "nat \<Rightarrow> nat \<Rightarrow> pyval \<Rightarrow> pyval \<Rightarrow> call list" where
  "run_calls s_rank c_rank opt_class sp_class =
     [Construct_opt, Construct_spcomm, Make_windows]
     @ (if s_rank = 0 then [Setup_hub] else [])
     @ [Global_toc ''Starting spcomm.main()'' None, Main]
     @ (if s_rank = 0 then [Send_terminate] else [])
     @ [Finalize,
        Cylinder_Barrier,
        Global_toc (''Hub algorithm '' @ name_of opt_class @ '' complete, waiting for spoke finalization'') None,
        Global_toc (''Spoke '' @ name_of sp_class @ '' finalized'') (Some (c_rank = 0 \<and> s_rank \<noteq> 0)),
        Fullcomm_Barrier,
        Hub_finalize,
        Free_windows,
        Fullcomm_Barrier,
        Global_toc ''Cylinder finalization complete'' None]"

definition lookup :: "dict \<Rightarrow> string \<Rightarrow> error + pyval" where
  \<comment> \<open>\<open>d[k]\<close>\<close>
  "lookup d k = (case map_of d k of None \<Rightarrow> Inl (KeyError k) | Some v \<Rightarrow> Inr v)"

text \<open>
  The part of \<open>run\<close> after the communicators exist: the dictionary of this rank is
  looked up, the cylinder communicator is stored under \<open>mpicomm\<close> in its \<open>opt_kwargs\<close>
  (the dictionary is shared with \<open>communicator_list\<close>, so the list changes too), the
  external calls are made, and the results are stored on the instance.
\<close>

definition run_on_comms ::
  "env \<Rightarrow> WheelSpinner \<Rightarrow> dict list \<Rightarrow> comm \<Rightarrow> comm \<Rightarrow> comm \<Rightarrow> call list
     \<Rightarrow> unit outcome \<times> WheelSpinner \<times> call list" where
  "run_on_comms ev ws communicator_list fullcomm strata_comm cylinder_comm hist =
     (let s_rank = Get_rank strata_comm;
          c_rank = Get_rank cylinder_comm;
          g_rank = Get_rank fullcomm
      in if \<not> s_rank < length communicator_list then (Raised IndexError, ws, hist)
         else
           let d = communicator_list ! s_rank in
           case lookup d ''spcomm_class'' of Inl e \<Rightarrow> (Raised e, ws, hist) | Inr sp_class \<Rightarrow>
           case lookup d ''spcomm_kwargs'' of Inl e \<Rightarrow> (Raised e, ws, hist) | Inr sp_kwargs \<Rightarrow>
           case lookup d ''opt_class'' of Inl e \<Rightarrow> (Raised e, ws, hist) | Inr opt_class \<Rightarrow>
           case lookup d ''opt_kwargs'' of Inl e \<Rightarrow> (Raised e, ws, hist) | Inr opt_kwargs \<Rightarrow>
           (case opt_kwargs of
              PyDict kw \<Rightarrow>
                let d' = AList.update ''opt_kwargs'' (PyDict (AList.update ''mpicomm'' (PyComm cylinder_comm) kw)) d;
                    cl' = communicator_list[s_rank := d'];
                    ws' = ws\<lparr>hub_dict := hd cl', list_of_spoke_dict := tl cl'\<rparr>
                in (case do_calls (raises ev) hist (run_calls s_rank c_rank opt_class sp_class) of
                      (Some e, tr) \<Rightarrow> (Raised e, ws', tr)
                    | (None, tr) \<Rightarrow>
                        (Returned (),
                         ws'\<lparr>spcomm := Some (spcomm_made ev),
                             spcomm_dict := Some d',
                             global_rank := Some g_rank,
                             strata_rank := Some s_rank,
                             cylinder_rank := Some c_rank,
                             BestInnerBound := Some (if s_rank = 0 then sp_BestInnerBound (spcomm_made ev) else None),
                             BestOuterBound := Some (if s_rank = 0 then sp_BestOuterBound (spcomm_made ev) else None),
                             ran := True\<rparr>,
                         tr))
            | _ \<Rightarrow> (Raised (TypeError ''object does not support item assignment''), ws, hist)))"

definition run :: "env \<Rightarrow> comm option \<Rightarrow> WheelSpinner \<Rightarrow> unit outcome \<times> WheelSpinner \<times> call list" where
  "run ev comm_world ws =
     (if ran ws then (Raised (RuntimeError ''WheelSpinner can only be run once''), ws, [])
      else if \<not> contains ''hub_class'' (hub_dict ws) then
        (Raised (RuntimeError ''The hub_dict must contain a 'hub_class' key specifying the hub class to use''), ws, [])
      else if \<not> contains ''opt_class'' (hub_dict ws) then
        (Raised (RuntimeError ''The hub_dict must contain an 'opt_class' key specifying the SPBase class to use (e.g. PHBase, etc.)''), ws, [])
      else
        let hd0 = setdefault_empty ''opt_kwargs'' (setdefault_empty ''hub_kwargs'' (hub_dict ws)) in
        case check_spokes (list_of_spoke_dict ws) of
          (Some e, spokes) \<Rightarrow> (Raised e, ws\<lparr>hub_dict := hd0, list_of_spoke_dict := spokes\<rparr>, [])
        | (None, spokes) \<Rightarrow>
            let fullcomm = (case comm_world of None \<Rightarrow> COMM_WORLD ev | Some c \<Rightarrow> c);
                communicator_list = map (convert_keys key_conversion) (hd0 # spokes);
                ws1 = ws\<lparr>hub_dict := hd communicator_list, list_of_spoke_dict := tl communicator_list\<rparr>;
                n_spcomms = length communicator_list
            in case make_comms (haveMPI ev) (COMM_WORLD ev) n_spcomms (Some fullcomm) of
                 (Inl e, mpi) \<Rightarrow> (Raised e, ws1, map MPI mpi)
               | (Inr (strata_comm, cylinder_comm), mpi) \<Rightarrow>
                   run_on_comms ev ws1 communicator_list fullcomm strata_comm cylinder_comm
                     (map MPI mpi @ [MPI Call_Get_rank, MPI Call_Get_rank, MPI Call_Get_rank]))"

definition spin :: "env \<Rightarrow> comm option \<Rightarrow> WheelSpinner \<Rightarrow> unit outcome \<times> WheelSpinner \<times> call list" where
  "spin ev comm_world ws = run ev comm_world ws"

subsection \<open>The result query surface\<close>

datatype retval =
    RNone
  | RBool bool
  | RCache "(string \<times> real list) list"

definition on_hub :: "WheelSpinner \<Rightarrow> retval outcome \<times> WheelSpinner \<times> call list" where
  "on_hub ws =
     (if \<not> ran ws then
        (Raised (RuntimeError ''Need to call WheelSpinner.run() before finding out.''), ws, [])
      else case strata_rank ws of
             None \<Rightarrow> (Raised (AttributeError ''strata_rank''), ws, [])
           | Some r \<Rightarrow> (Returned (RBool (r = 0)), ws, []))"

text \<open>
  \<open>_determine_innerbound_winner\<close>: the process of global rank 0 broadcasts the index of
  the spoke with the last inner bound, or -1; the other processes receive what the root
  sent, which the environment gives.
\<close>

definition determine_innerbound_winner ::
  "env \<Rightarrow> WheelSpinner \<Rightarrow> bool outcome \<times> call list" where
  "determine_innerbound_winner ev ws =
     (case spcomm ws of
        None \<Rightarrow> (Raised (AttributeError ''spcomm''), [])
      | Some sp \<Rightarrow>
          let mine = (if sp_global_rank sp = 0
                      then (case sp_last_ib_idx sp of None \<Rightarrow> Some (- 1) | Some i \<Rightarrow> Some (int i))
                      else None);
              calls = (if sp_global_rank sp = 0 \<and> sp_last_ib_idx sp = None
                       then [Global_toc ''No incumbent solution available to write!'' None]
                       else []) @ [Bcast]
          in case do_calls (raises ev) [] calls of
               (Some e, tr) \<Rightarrow> (Raised e, tr)
             | (None, tr) \<Rightarrow>
                 let best_strata_rank = (case mine of Some b \<Rightarrow> b | None \<Rightarrow> root_best_strata_rank ev)
                 in (Returned (int (sp_strata_rank sp) = best_strata_rank), tr))"

definition write_solution ::
  "call \<Rightarrow> env \<Rightarrow> WheelSpinner \<Rightarrow> retval outcome \<times> WheelSpinner \<times> call list" where
  \<comment> \<open>the common body of \<open>write_first_stage_solution\<close> and \<open>write_tree_solution\<close>\<close>
  "write_solution writer_call ev ws =
     (if \<not> ran ws then
        (Raised (RuntimeError ''Need to call WheelSpinner.run() before querying solutions.''), ws, [])
      else case determine_innerbound_winner ev ws of
             (Raised e, tr) \<Rightarrow> (Raised e, ws, tr)
           | (Returned winner, tr) \<Rightarrow>
               if winner then
                 (case do_calls (raises ev) tr [writer_call] of
                    (Some e, tr') \<Rightarrow> (Raised e, ws, tr')
                  | (None, tr') \<Rightarrow> (Returned RNone, ws, tr'))
               else (Returned RNone, ws, tr))"

definition write_first_stage_solution ::
  "env \<Rightarrow> string \<Rightarrow> WheelSpinner \<Rightarrow> retval outcome \<times> WheelSpinner \<times> call list" where
  "write_first_stage_solution ev solution_file_name ws =
     write_solution (Opt_write_first_stage_solution solution_file_name) ev ws"

definition write_tree_solution ::
  "env \<Rightarrow> string \<Rightarrow> WheelSpinner \<Rightarrow> retval outcome \<times> WheelSpinner \<times> call list" where
  "write_tree_solution ev solution_directory_name ws =
     write_solution (Opt_write_tree_solution solution_directory_name) ev ws"

text \<open>Pyomo's \<open>value(var)\<close> raises on a variable without a value.\<close>

fun values_of :: "real option list \<Rightarrow> error + real list" where
  "values_of [] = Inr []"
| "values_of (None # vs) = Inl (ValueError ''No value for uninitialized variable'')"
| "values_of (Some v # vs) = (case values_of vs of Inl e \<Rightarrow> Inl e | Inr rs \<Rightarrow> Inr (v # rs))"

fun cache_nodes :: "node list \<Rightarrow> (string \<times> real list) list \<Rightarrow> error + (string \<times> real list) list" where
  "cache_nodes [] local_xhats = Inr local_xhats"
| "cache_nodes (nd # nds) local_xhats =
     (if map_of local_xhats (node_name nd) = None then
        (case values_of (nonant_vardata_list nd) of
           Inl e \<Rightarrow> Inl e
         | Inr vs \<Rightarrow> cache_nodes nds (AList.update (node_name nd) vs local_xhats))
      else cache_nodes nds local_xhats)"

fun cache_scenarios ::
  "(string \<times> node list) list \<Rightarrow> (string \<times> real list) list \<Rightarrow> error + (string \<times> real list) list" where
  "cache_scenarios [] local_xhats = Inr local_xhats"
| "cache_scenarios ((k, s) # rest) local_xhats =
     (case cache_nodes s local_xhats of
        Inl e \<Rightarrow> Inl e
      | Inr local_xhats' \<Rightarrow> cache_scenarios rest local_xhats')"

definition local_nonant_cache :: "WheelSpinner \<Rightarrow> retval outcome \<times> WheelSpinner \<times> call list" where
  "local_nonant_cache ws =
     (if \<not> ran ws then
        (Raised (RuntimeError ''Need to call WheelSpinner.run() before querying solutions.''), ws, [])
      else case spcomm ws of
             None \<Rightarrow> (Raised (AttributeError ''spcomm''), ws, [])
           | Some sp \<Rightarrow>
               (case cache_scenarios (sp_local_scenarios sp) [] of
                  Inl e \<Rightarrow> (Raised e, ws, [])
                | Inr local_xhats \<Rightarrow> (Returned (RCache local_xhats), ws, [])))"

text \<open>
  Calling \<open>ws.name(arg)\<close>. The methods are those the class defines; an instance
  attribute of that name is not callable; any other name is not an attribute of the
  instance at all. (Names inherited from \<open>object\<close>, which all start with two underscores,
  are outside this model.)
\<close>

datatype pyarg = NoArg | StrArg string | CommArg comm

definition instance_attributes :: "WheelSpinner \<Rightarrow> string list" where
  "instance_attributes ws =
     [''hub_dict'', ''list_of_spoke_dict'', ''_ran'']
     @ (if spcomm ws = None then [] else [''spcomm''])
     @ (if spcomm_dict ws = None then [] else [''spcomm_dict''])
     @ (if global_rank ws = None then [] else [''global_rank''])
     @ (if strata_rank ws = None then [] else [''strata_rank''])
     @ (if cylinder_rank ws = None then [] else [''cylinder_rank''])
     @ (if BestInnerBound ws = None then [] else [''BestInnerBound''])
     @ (if BestOuterBound ws = None then [] else [''BestOuterBound''])"

definition lift_unit :: "unit outcome \<times> WheelSpinner \<times> call list \<Rightarrow> retval outcome \<times> WheelSpinner \<times> call list" where
  "lift_unit r = (case r of (Returned u, ws, tr) \<Rightarrow> (Returned RNone, ws, tr) | (Raised e, ws, tr) \<Rightarrow> (Raised e, ws, tr))"

definition arg_comm :: "pyarg \<Rightarrow> comm option" where
  "arg_comm a = (case a of CommArg c \<Rightarrow> Some c | _ \<Rightarrow> None)"

definition arg_str :: "pyarg \<Rightarrow> string" where
  "arg_str a = (case a of StrArg x \<Rightarrow> x | _ \<Rightarrow> [])"

definition invoke ::
  "env \<Rightarrow> string \<Rightarrow> pyarg \<Rightarrow> WheelSpinner \<Rightarrow> retval outcome \<times> WheelSpinner \<times> call list" where
  "invoke ev name a ws =
     (if name = ''spin'' then lift_unit (spin ev (arg_comm a) ws)
      else if name = ''run'' then lift_unit (run ev (arg_comm a) ws)
      else if name = ''on_hub'' then on_hub ws
      else if name = ''write_first_stage_solution'' then write_first_stage_solution ev (arg_str a) ws
      else if name = ''write_tree_solution'' then write_tree_solution ev (arg_str a) ws
      else if name = ''local_nonant_cache'' then local_nonant_cache ws
      else if name = ''_determine_innerbound_winner'' then
        (case determine_innerbound_winner ev ws of
           (Returned b, tr) \<Rightarrow> (Returned (RBool b), ws, tr)
         | (Raised e, tr) \<Rightarrow> (Raised e, ws, tr))
      else if name \<in> set (instance_attributes ws) then
        (Raised (TypeError ''object is not callable''), ws, [])
      else (Raised (AttributeError name), ws, []))"

text \<open>A sequence of calls on one instance; an exception is caught by the caller and the next call is made.\<close>

fun invoke_all :: "env \<Rightarrow> (string \<times> pyarg) list \<Rightarrow> WheelSpinner \<Rightarrow> WheelSpinner" where
  "invoke_all ev [] ws = ws"
| "invoke_all ev ((name, a) # rest) ws = invoke_all ev rest (fst (snd (invoke ev name a ws)))"

subsection \<open>An example configuration\<close>

text \<open>
  One hub and one spoke on four processes, seen from the process of global rank 2, with
  external calls that never raise.
\<close>

definition ex_hub_dict :: dict where
  "ex_hub_dict = [(''hub_class'', PyClass ''PHHub''), (''opt_class'', PyClass ''PH'')]"

definition ex_spoke_dict :: dict where
  "ex_spoke_dict = [(''spoke_class'', PyClass ''LagrangianOuterBound''), (''opt_class'', PyClass ''PHBase'')]"

definition ex_spcomm :: spcomm_obj where
  "ex_spcomm = \<lparr>sp_BestInnerBound = Some 10, sp_BestOuterBound = Some 8, sp_global_rank = 2,
                 sp_strata_rank = 0, sp_last_ib_idx = Some 1, sp_local_scenarios = []\<rparr>"

definition ex_env :: env where
  "ex_env = \<lparr>haveMPI = True, COMM_WORLD = world 4 2, raises = (\<lambda>hist c. None),
              spcomm_made = ex_spcomm, root_best_strata_rank = 1\<rparr>"

definition ex_ws :: WheelSpinner where
  "ex_ws = \<lparr>hub_dict = ex_hub_dict, list_of_spoke_dict = [ex_spoke_dict], ran = False,
             spcomm = None, spcomm_dict = None, global_rank = None, strata_rank = None,
             cylinder_rank = None, BestInnerBound = None, BestOuterBound = None\<rparr>"

section \<open>Solver instance set-up with retries: \<open>set_instance_retry\<close>\<close>














section \<open>Double precision numbers\<close>

text \<open>
  The probabilities and the caches of \<open>SPOpt\<close> are IEEE 754 doubles (NumPy arrays of
  dtype \<open>'d'\<close>, Python floats). \<open>Fin m e\<close> is the number \<open>m * 2 ^ e\<close>; the results of
  the operations below have \<open>m\<close> odd, or are \<open>Fin 0 0\<close>, so that a number has one
  representation and \<open>=\<close> on results is Python's \<open>==\<close> (apart from \<open>nan\<close>, which
  Python makes unequal to itself; the two zeros are not told apart, as \<open>==\<close> does not).
\<close>

datatype double = Fin int int | PInf | NInf | NaN

text \<open>The number of binary digits of a positive integer.\<close>

function nbits :: "int \<Rightarrow> int" where
  "nbits n = (if n \<le> 0 then 0 else 1 + nbits (n div 2))"
  by pat_completeness auto
termination
  by (relation "measure nat") auto

function strip_zeros :: "int \<Rightarrow> int \<Rightarrow> int \<times> int" where
  "strip_zeros m e =
     (if m \<le> 0 then (0, 0)
      else if even m then strip_zeros (m div 2) (e + 1)
      else (m, e))"
  by pat_completeness auto
termination
  by (relation "measure (\<lambda>(m, e). nat m)") auto

text \<open>
  Rounding the magnitude \<open>a * 2 ^ e\<close> to the nearest double, ties to even: the result
  has at most 53 significant bits and is a multiple of \<open>2 ^ (- 1074)\<close>; \<open>None\<close> is
  overflow (a result of \<open>2 ^ 1024\<close> or more).
\<close>

definition round_mag :: "int \<Rightarrow> int \<Rightarrow> (int \<times> int) option" where
  "round_mag a e =
     (let qe = max (e + nbits a - 53) (- 1074);
          q' = (if qe \<le> e then a
                else let u = 2 ^ nat (qe - e); q = a div u; r = a mod u; half = u div 2
                     in if r < half \<or> (r = half \<and> even q) then q else q + 1);
          e' = (if qe \<le> e then e else qe)
      in if nbits q' + e' > 1024 then None else Some (strip_zeros q' e'))"

definition round_double :: "int \<Rightarrow> int \<Rightarrow> double" where
  "round_double a e =
     (case round_mag \<bar>a\<bar> e of
        None \<Rightarrow> (if a < 0 then NInf else PInf)
      | Some (m, e') \<Rightarrow> Fin (if a < 0 then - m else m) e')"

text \<open>Addition of doubles: the exact sum, rounded.\<close>

fun dadd :: "double \<Rightarrow> double \<Rightarrow> double" where
  "dadd NaN y = NaN"
| "dadd x NaN = NaN"
| "dadd PInf NInf = NaN"
| "dadd NInf PInf = NaN"
| "dadd PInf y = PInf"
| "dadd x PInf = PInf"
| "dadd NInf y = NInf"
| "dadd x NInf = NInf"
| "dadd (Fin m1 e1) (Fin m2 e2) =
     (let e = min e1 e2
      in round_double (m1 * 2 ^ nat (e1 - e) + m2 * 2 ^ nat (e2 - e)) e)"

text \<open>
  A probability is a finite double that is not negative (that it is at most 1 is not
  needed). A sum of probabilities is not negative, and may be infinite.
\<close>

fun is_probability :: "double \<Rightarrow> bool" where
  "is_probability (Fin m e) = (0 \<le> m)"
| "is_probability _ = False"

fun not_negative :: "double \<Rightarrow> bool" where
  "not_negative (Fin m e) = (0 \<le> m)"
| "not_negative PInf = True"
| "not_negative _ = False"

text \<open>The doubles nearest to 0.1, 0.2 and 0.7, and the numbers 1 and \<open>2 ^ (- 60)\<close>.\<close>

definition d_0_1 :: double where "d_0_1 = Fin 3602879701896397 (- 55)"
definition d_0_2 :: double where "d_0_2 = Fin 3602879701896397 (- 54)"
definition d_0_7 :: double where "d_0_7 = Fin 3152519739159347 (- 52)"
definition d_1 :: double where "d_1 = Fin 1 0"
definition d_tiny :: double where "d_tiny = Fin 1 (- 60)"
definition d_half :: double where "d_half = Fin 1 (- 1)"
definition d_quarter :: double where "d_quarter = Fin 1 (- 2)"

section \<open>Scenarios and subproblems (\<open>SPOpt\<close>)\<close>

text \<open>
  The value of a Pyomo variable is \<open>None\<close>, a Python integer or a float. A variable has
  a value and a fixedness status.
\<close>

datatype pyvalue = PyNone | PyInt int | PyFloat double

record var =
  var_value :: pyvalue
  fixed :: "bool option"

text \<open>
  The attributes of a scenario (or of a bundle) that the modelled methods use.
  \<open>nonant_vars\<close> is \<open>_mpisppy_data.nonant_indices.values()\<close> in iteration order;
  \<open>nlens\<close> holds the values of the dictionary \<open>_mpisppy_data.nlens\<close>; a cache is
  \<open>None\<close> while the attribute does not exist; \<open>solver_is_persistent\<close> is
  \<open>sputils.is_persistent(s._solver_plugin)\<close>.
\<close>

record scenario =
  scen_name :: string
  mpisppy_probability :: double
  scenario_feasible :: bool
  solution_available :: "bool option"
  outer_bound :: "double option"
  inner_bound :: "double option"
  ef_scenario_names :: "string list"
  nonant_vars :: "var list"
  nlens :: "nat list"
  nonant_cache :: "double list option"
  fixedness_cache :: "bool option list option"
  solver_is_persistent :: bool

subsection \<open>Probability sums: \<open>_update_E1\<close>, \<open>feas_prob\<close>, \<open>infeas_prob\<close>\<close>

text \<open>
  Each process of the cylinder communicator adds up over its own \<open>local_scenarios\<close>, in
  dictionary order, into an array element that starts at zero; \<open>Allreduce\<close> with
  \<open>MPI.SUM\<close> adds the local sums of the processes, here in rank order (with one process
  there is nothing to add). The argument of the three functions is the list, in rank
  order, of the \<open>local_scenarios\<close> of the processes.
\<close>

fun Allreduce_SUM :: "double list \<Rightarrow> double" where
  "Allreduce_SUM [] = Fin 0 0"
| "Allreduce_SUM (x # xs) = foldl dadd x xs"

definition local_P :: "(string \<times> scenario) list \<Rightarrow> double" where
  "local_P local_scenarios =
     foldl (\<lambda>localP (k, s). dadd localP (mpisppy_probability s)) (Fin 0 0) local_scenarios"

definition local_feas :: "(string \<times> scenario) list \<Rightarrow> double" where
  "local_feas local_scenarios =
     foldl (\<lambda>locals (k, s). if scenario_feasible s then dadd locals (mpisppy_probability s) else locals)
       (Fin 0 0) local_scenarios"

definition local_infeas :: "(string \<times> scenario) list \<Rightarrow> double" where
  "local_infeas local_scenarios =
     foldl (\<lambda>locals (k, s). if \<not> scenario_feasible s then dadd locals (mpisppy_probability s) else locals)
       (Fin 0 0) local_scenarios"

definition update_E1 :: "(string \<times> scenario) list list \<Rightarrow> double" where
  \<comment> \<open>the value stored in \<open>self.E1\<close>\<close>
  "update_E1 ranks = Allreduce_SUM (map local_P ranks)"

definition feas_prob :: "(string \<times> scenario) list list \<Rightarrow> double" where
  "feas_prob ranks = Allreduce_SUM (map local_feas ranks)"

definition infeas_prob :: "(string \<times> scenario) list list \<Rightarrow> double" where
  "infeas_prob ranks = Allreduce_SUM (map local_infeas ranks)"

definition all_feasible :: "(string \<times> scenario) list list \<Rightarrow> bool" where
  "all_feasible ranks = list_all (list_all (\<lambda>(k, s). scenario_feasible s)) ranks"

definition all_probabilities :: "(string \<times> scenario) list list \<Rightarrow> bool" where
  "all_probabilities ranks = list_all (list_all (\<lambda>(k, s). is_probability (mpisppy_probability s))) ranks"

text \<open>
  The probabilities that a sum adds, in the order in which it adds them: those of the
  scenarios that satisfy \<open>P\<close>.
\<close>

definition added :: "(scenario \<Rightarrow> bool) \<Rightarrow> (string \<times> scenario) list \<Rightarrow> double list" where
  "added P local_scenarios =
     map (\<lambda>(k, s). mpisppy_probability s) (filter (\<lambda>(k, s). P s) local_scenarios)"

definition dsum :: "double list \<Rightarrow> double" where
  "dsum ps = foldl dadd (Fin 0 0) ps"

text \<open>Example scenarios.\<close>

definition ex_scenario :: "string \<Rightarrow> double \<Rightarrow> bool \<Rightarrow> scenario" where
  "ex_scenario n p f =
     \<lparr>scen_name = n, mpisppy_probability = p, scenario_feasible = f,
      solution_available = None, outer_bound = None, inner_bound = None,
      ef_scenario_names = [], nonant_vars = [], nlens = [],
      nonant_cache = None, fixedness_cache = None, solver_is_persistent = False\<rparr>"

definition ex_ranks_feasible :: "(string \<times> scenario) list list" where
  "ex_ranks_feasible = [[(''scen0'', ex_scenario ''scen0'' d_half True)],
                        [(''scen1'', ex_scenario ''scen1'' d_quarter True),
                         (''scen2'', ex_scenario ''scen2'' d_quarter True)]]"

definition ex_ranks_rounding :: "(string \<times> scenario) list list" where
  \<comment> \<open>probabilities 0.1 (feasible), 0.2 and 0.7 (infeasible) on one process\<close>
  "ex_ranks_rounding = [[(''scen0'', ex_scenario ''scen0'' d_0_1 True),
                         (''scen1'', ex_scenario ''scen1'' d_0_2 False),
                         (''scen2'', ex_scenario ''scen2'' d_0_7 False)]]"

definition ex_ranks_tiny :: "(string \<times> scenario) list list" where
  \<comment> \<open>probability 1 (feasible) and \<open>2 ^ (- 60)\<close> (infeasible)\<close>
  "ex_ranks_tiny = [[(''scen0'', ex_scenario ''scen0'' d_1 True),
                     (''scen1'', ex_scenario ''scen1'' d_tiny False)]]"

definition ex_ranks_zero :: "(string \<times> scenario) list list" where
  \<comment> \<open>probability 1 (feasible) and 0 (infeasible)\<close>
  "ex_ranks_zero = [[(''scen0'', ex_scenario ''scen0'' d_1 True),
                     (''scen1'', ex_scenario ''scen1'' (Fin 0 0) False)]]"

subsection \<open>Saving and restoring the non-anticipative variables\<close>

text \<open>
  Calls on external objects made by the methods of \<open>SPOpt\<close> that are modelled here,
  and the lines they print.
\<close>

datatype spopt_event =
    Update_var string nat
  | Callout_agnostic string
  | Solve bool
  | Print string
  | Load_solution
  | Check_staleness string



















section \<open>Properties\<close>

subsection \<open>Ranks and groups in the world communicator\<close>

lemma index_of_upt: "g < n \<Longrightarrow> index_of [m..<m+n] (m+g) = g"
proof (induction n arbitrary: m g)
  case 0 then show ?case by simp
next
  case (Suc n)
  show ?case
  proof (cases g)
    case 0 then show ?thesis by (simp add: upt_rec)
  next
    case (Suc g')
    with Suc.prems have "g' < n" by simp
    from Suc.IH[OF this, of "Suc m"] Suc show ?thesis by (simp add: upt_rec)
  qed
qed

lemma Get_size_world: "Get_size (world n g) = n"
  by (simp add: Get_size_def world_def)

lemma Get_rank_world: "g < n \<Longrightarrow> Get_rank (world n g) = g"
  using index_of_upt[of g n 0] by (simp add: Get_rank_def world_def)

lemma map_nth_upt_filter: "map (\<lambda>q. [0..<n] ! q) (filter P [0..<n]) = filter P [0..<n]"
  by (rule map_idI) simp

lemma sort_key_rank_filter: "sort_key key_rank (filter P [0..<n]) = filter P [0..<n]"
proof -
  have "sorted (map key_rank (filter P [0..<n]))"
    unfolding key_rank_def by (simp add: sorted_wrt_filter)
  thus ?thesis by (rule sort_key_id_if_sorted)
qed

lemma members_Split_world:
  "g < n \<Longrightarrow> members (Split (world n g) color key_rank) = filter (\<lambda>q. color q = color g) [0..<n]"
  by (simp add: Split_def Let_def Get_rank_world Get_size_world sort_key_rank_filter)
     (simp add: world_def map_nth_upt_filter)

lemma me_Split: "me (Split c color key) = me c"
  by (simp add: Split_def Let_def)

lemma make_comms_result:
  "have_mpi \<Longrightarrow> 0 < n_spcomms \<Longrightarrow>
   make_comms have_mpi W n_spcomms fc =
     (let fullcomm = (case fc of None \<Rightarrow> W | Some c \<Rightarrow> c) in
      if Get_size fullcomm mod n_spcomms \<noteq> 0
      then (Inl (RuntimeError ''Need a multiple of {n_spcomms} processes (got {n_proc})''), [Call_Get_size])
      else (Inr (Split fullcomm (color_floordiv n_spcomms) key_rank,
                 Split fullcomm (color_mod n_spcomms) key_rank),
            [Call_Get_size, Call_Get_rank,
             Call_Split (color_floordiv n_spcomms (Get_rank fullcomm)) (key_rank (Get_rank fullcomm)),
             Call_Split (color_mod n_spcomms (Get_rank fullcomm)) (key_rank (Get_rank fullcomm))]))"
  by (simp add: make_comms_def Let_def)

lemma div_block_bounds:
  fixes g n n_proc :: nat
  assumes "g < n_proc" "0 < n" "n_proc mod n = 0"
  shows "g div n * n + n \<le> n_proc"
proof -
  from assms(3) div_mult_mod_eq[of n_proc n] have "n_proc = (n_proc div n) * n" by simp
  then obtain m where m: "n_proc = m * n" ..
  with assms have "g div n < m" by (simp add: div_less_iff_less_mult)
  hence "Suc (g div n) * n \<le> m * n" by (intro mult_le_mono1) simp
  thus ?thesis using m by simp
qed

lemma same_div_iff:
  fixes q g n :: nat
  assumes "0 < n"
  shows "q div n = g div n \<longleftrightarrow> g div n * n \<le> q \<and> q < g div n * n + n"
proof
  assume "q div n = g div n"
  then have "g div n * n \<le> q" by (metis div_times_less_eq_dividend)
  moreover have "q < q div n * n + n" using assms
    by (metis add.commute dividend_less_div_times mult.commute)
  ultimately show "g div n * n \<le> q \<and> q < g div n * n + n" using \<open>q div n = g div n\<close> by simp
next
  assume a: "g div n * n \<le> q \<and> q < g div n * n + n"
  then have "g div n \<le> q div n" using assms
    by (metis div_le_mono div_mult_self_is_m)
  moreover from a have "q < Suc (g div n) * n" by simp
  then have "q div n < Suc (g div n)" using assms by (simp add: div_less_iff_less_mult)
  ultimately show "q div n = g div n" by simp
qed

lemma filter_same_div:
  fixes g n n_proc :: nat
  assumes "g < n_proc" "0 < n" "n_proc mod n = 0"
  shows "filter (\<lambda>q. q div n = g div n) [0..<n_proc] = [g div n * n ..< g div n * n + n]"
proof (rule sorted_distinct_set_unique)
  show "set (filter (\<lambda>q. q div n = g div n) [0..<n_proc]) = set [g div n * n ..< g div n * n + n]"
    using div_block_bounds[OF assms] same_div_iff[OF assms(2)] by auto
qed (simp_all add: sorted_wrt_filter)

lemma filter_same_mod:
  fixes g n n_proc :: nat
  assumes "0 < n" "n_proc mod n = 0"
  shows "filter (\<lambda>q. q mod n = g mod n) [0..<n_proc] = map (\<lambda>k. k * n + g mod n) [0..<n_proc div n]"
proof (rule sorted_distinct_set_unique)
  from assms(2) div_mult_mod_eq[of n_proc n] have "n_proc = (n_proc div n) * n" by simp
  then obtain m where m: "n_proc = m * n" ..
  have md: "n_proc div n = m" using m assms(1) by simp
  show "set (filter (\<lambda>q. q mod n = g mod n) [0..<n_proc]) = set (map (\<lambda>k. k * n + g mod n) [0..<n_proc div n])"
  proof (intro set_eqI iffI)
    fix q assume "q \<in> set (filter (\<lambda>q. q mod n = g mod n) [0..<n_proc])"
    then have q: "q < m * n" "q mod n = g mod n" using m by auto
    then have "q div n < m" using assms(1) by (simp add: div_less_iff_less_mult)
    moreover have "q = q div n * n + g mod n" using q(2) by (metis div_mult_mod_eq)
    ultimately show "q \<in> set (map (\<lambda>k. k * n + g mod n) [0..<n_proc div n])"
      unfolding md by (metis (mono_tags, lifting) atLeast0LessThan imageI lessThan_iff set_map set_upt)
  next
    fix q assume "q \<in> set (map (\<lambda>k. k * n + g mod n) [0..<n_proc div n])"
    then obtain k where k: "k < m" "q = k * n + g mod n" unfolding md by auto
    have "g mod n < n" using assms(1) by simp
    then have "k * n + g mod n < Suc k * n" by simp
    also have "\<dots> \<le> m * n" using k(1) by (intro mult_le_mono1) simp
    finally have "q < n_proc" using k m by simp
    moreover have "q mod n = g mod n" using k by simp
    ultimately show "q \<in> set (filter (\<lambda>q. q mod n = g mod n) [0..<n_proc])" by simp
  qed
  show "sorted (map (\<lambda>k. k * n + g mod n) [0..<n_proc div n])"
    by (auto simp: sorted_iff_nth_mono)
  show "distinct (map (\<lambda>k. k * n + g mod n) [0..<n_proc div n])"
    using assms(1) by (auto simp: distinct_map inj_on_def)
qed (simp_all add: sorted_wrt_filter)

lemma index_of_map_inj:
  "inj f \<Longrightarrow> index_of (map f xs) (f k) = index_of xs k"
  by (induction xs) (auto dest: injD)

lemma div_less_quotient:
  fixes g n n_proc :: nat
  assumes "g < n_proc" "0 < n" "n_proc mod n = 0"
  shows "g div n < n_proc div n"
proof -
  from assms(3) div_mult_mod_eq[of n_proc n] have "n_proc = (n_proc div n) * n" by simp
  with assms(1) have "g < (n_proc div n) * n" by simp
  thus ?thesis using assms(2) by (simp add: div_less_iff_less_mult)
qed

lemma members_strata:
  assumes "g < n_proc" "0 < n" "n_proc mod n = 0"
  shows "members (Split (world n_proc g) (color_floordiv n) key_rank) = [g div n * n ..< g div n * n + n]"
  using assms by (simp add: members_Split_world color_floordiv_def filter_same_div)

lemma members_cylinder:
  assumes "g < n_proc" "0 < n" "n_proc mod n = 0"
  shows "members (Split (world n_proc g) (color_mod n) key_rank) = map (\<lambda>k. k * n + g mod n) [0..<n_proc div n]"
  using assms by (simp add: members_Split_world color_mod_def filter_same_mod)

lemma Get_rank_strata:
  assumes "g < n_proc" "0 < n" "n_proc mod n = 0"
  shows "Get_rank (Split (world n_proc g) (color_floordiv n) key_rank) = g mod n"
proof -
  have me: "me (Split (world n_proc g) (color_floordiv n) key_rank) = g"
    by (simp add: me_Split world_def)
  have g: "g = g div n * n + g mod n" by simp
  have "index_of [g div n * n ..< g div n * n + n] (g div n * n + g mod n) = g mod n"
    using assms(2) by (intro index_of_upt) simp
  with g have "index_of [g div n * n ..< g div n * n + n] g = g mod n" by simp
  thus ?thesis unfolding Get_rank_def me members_strata[OF assms] .
qed

lemma Get_rank_cylinder:
  assumes "g < n_proc" "0 < n" "n_proc mod n = 0"
  shows "Get_rank (Split (world n_proc g) (color_mod n) key_rank) = g div n"
proof -
  have me: "me (Split (world n_proc g) (color_mod n) key_rank) = g"
    by (simp add: me_Split world_def)
  have inj: "inj (\<lambda>k. k * n + g mod n)" using assms(2) by (auto simp: inj_def)
  have g: "g = g div n * n + g mod n" by simp
  have "index_of (map (\<lambda>k. k * n + g mod n) [0..<n_proc div n]) ((\<lambda>k. k * n + g mod n) (g div n))
        = index_of [0..<n_proc div n] (g div n)"
    by (rule index_of_map_inj[OF inj])
  also have "\<dots> = g div n"
    using index_of_upt[of "g div n" "n_proc div n" 0] div_less_quotient[OF assms] by simp
  finally have "index_of (map (\<lambda>k. k * n + g mod n) [0..<n_proc div n]) g = g div n"
    using g by simp
  thus ?thesis unfolding Get_rank_def me members_cylinder[OF assms] .
qed

lemma Get_size_strata:
  assumes "g < n_proc" "0 < n" "n_proc mod n = 0"
  shows "Get_size (Split (world n_proc g) (color_floordiv n) key_rank) = n"
  unfolding Get_size_def members_strata[OF assms] by simp

lemma Get_size_cylinder:
  assumes "g < n_proc" "0 < n" "n_proc mod n = 0"
  shows "Get_size (Split (world n_proc g) (color_mod n) key_rank) = n_proc div n"
  unfolding Get_size_def members_cylinder[OF assms] by simp

lemma make_comms_world:
  assumes "q < n_proc" "0 < n" "n_proc mod n = 0"
  shows "fst (make_comms True (world n_proc q) n None)
         = Inr (Split (world n_proc q) (color_floordiv n) key_rank,
                Split (world n_proc q) (color_mod n) key_rank)"
  using assms by (simp add: make_comms_result Get_size_world Let_def)

lemma strata_rank_of_valid:
  assumes "q < n_proc" "0 < n" "n_proc mod n = 0"
  shows "strata_rank_of n n_proc q = Some (q mod n)"
  by (simp add: strata_rank_of_def make_comms_world[OF assms] Get_rank_strata[OF assms])

lemma cylinder_size_of_valid:
  assumes "q < n_proc" "0 < n" "n_proc mod n = 0"
  shows "cylinder_size_of n n_proc q = Some (n_proc div n)"
  by (simp add: cylinder_size_of_def make_comms_world[OF assms] Get_size_cylinder[OF assms])

lemma strata_members_of_valid:
  assumes "q < n_proc" "0 < n" "n_proc mod n = 0"
  shows "strata_members_of n n_proc q = [q div n * n ..< q div n * n + n]"
  by (simp add: strata_members_of_def make_comms_world[OF assms] members_strata[OF assms])

lemma cylinder_members_of_valid:
  assumes "q < n_proc" "0 < n" "n_proc mod n = 0"
  shows "cylinder_members_of n n_proc q = map (\<lambda>k. k * n + q mod n) [0..<n_proc div n]"
  by (simp add: cylinder_members_of_def make_comms_world[OF assms] members_cylinder[OF assms])

lemma filter_block_mod0:
  fixes a n :: nat
  assumes "0 < n" "a mod n = 0"
  shows "filter (\<lambda>q. q mod n = 0) [a..<a + n] = [a]"
proof (rule sorted_distinct_set_unique)
  from assms(2) div_mult_mod_eq[of a n] have a: "a = (a div n) * n" by simp
  show "set (filter (\<lambda>q. q mod n = 0) [a..<a + n]) = set [a]"
  proof (intro set_eqI iffI)
    fix q assume "q \<in> set (filter (\<lambda>q. q mod n = 0) [a..<a + n])"
    then have q: "a \<le> q" "q < a + n" "q mod n = 0" by auto
    define r where "r = q - a"
    have r: "q = a + r" "r < n" using q by (simp_all add: r_def)
    have "q mod n = ((a div n) * n + r) mod n" using r(1) a by simp
    also have "\<dots> = r mod n" by simp
    finally have "r mod n = 0" using q(3) by simp
    with r(2) have "r = 0" by simp
    with r show "q \<in> set [a]" by simp
  next
    fix q assume "q \<in> set [a]"
    then show "q \<in> set (filter (\<lambda>q. q mod n = 0) [a..<a + n])" using assms by simp
  qed
qed (simp_all add: sorted_wrt_filter)

lemma hubs_in_strata:
  assumes "g < n_proc" "0 < n" "n_proc mod n = 0"
  shows "hubs_in n n_proc (strata_members_of n n_proc g) = [g div n * n]"
proof -
  have b: "g div n * n + n \<le> n_proc" by (rule div_block_bounds[OF assms])
  have "filter (\<lambda>q. strata_rank_of n n_proc q = Some 0) [g div n * n ..< g div n * n + n]
        = filter (\<lambda>q. q mod n = 0) [g div n * n ..< g div n * n + n]"
  proof (rule filter_cong[OF refl])
    fix q assume "q \<in> set [g div n * n ..< g div n * n + n]"
    then have "q < n_proc" using b by simp
    then show "(strata_rank_of n n_proc q = Some 0) = (q mod n = 0)"
      using strata_rank_of_valid[OF _ assms(2,3)] by simp
  qed
  also have "\<dots> = [g div n * n]" using assms(2) by (intro filter_block_mod0) simp_all
  finally show ?thesis unfolding hubs_in_def strata_members_of_valid[OF assms] .
qed

subsection \<open>The topology build fails exactly on a misshaped process count\<close>

text \<open>
  Claim C2. With MPI available and at least one role, \<open>_make_comms\<close> raises if and only
  if the size of the full communicator is not a multiple of \<open>n_spcomms\<close>. When it raises
  it has only asked for the size: no communicator has been created. When it does not
  raise it returns the strata and the cylinder communicator, and its only MPI calls are
  the size and rank queries and the two splits. The instance of the witness is
  six processes with four roles, which fails, and six processes with three, which
  does not.
\<close>

theorem make_comms_fails_iff:
  assumes "have_mpi" and "0 < n_spcomms"
  shows "(isl (fst (make_comms have_mpi W n_spcomms (Some fullcomm)))
            \<longleftrightarrow> Get_size fullcomm mod n_spcomms \<noteq> 0)
       \<and> make_comms have_mpi W n_spcomms (Some fullcomm) =
          (if Get_size fullcomm mod n_spcomms \<noteq> 0
           then (Inl (RuntimeError ''Need a multiple of {n_spcomms} processes (got {n_proc})''),
                 [Call_Get_size])
           else (Inr (Split fullcomm (color_floordiv n_spcomms) key_rank,
                      Split fullcomm (color_mod n_spcomms) key_rank),
                 [Call_Get_size, Call_Get_rank,
                  Call_Split (color_floordiv n_spcomms (Get_rank fullcomm)) (key_rank (Get_rank fullcomm)),
                  Call_Split (color_mod n_spcomms (Get_rank fullcomm)) (key_rank (Get_rank fullcomm))]))
       \<and> (filter is_Split (snd (make_comms have_mpi W n_spcomms (Some fullcomm))) =
            (if Get_size fullcomm mod n_spcomms \<noteq> 0 then []
             else [Call_Split (color_floordiv n_spcomms (Get_rank fullcomm)) (key_rank (Get_rank fullcomm)),
                   Call_Split (color_mod n_spcomms (Get_rank fullcomm)) (key_rank (Get_rank fullcomm))]))"
  using assms by (simp add: make_comms_result)

theorem make_comms_fails_iff_witness:
  "isl (fst (make_comms True (world 1 0) 4 (Some (world 6 2))))
   \<and> filter is_Split (snd (make_comms True (world 1 0) 4 (Some (world 6 2)))) = []
   \<and> \<not> isl (fst (make_comms True (world 1 0) 3 (Some (world 6 2))))
   \<and> filter is_Split (snd (make_comms True (world 1 0) 3 (Some (world 6 2)))) = [Call_Split 0 2, Call_Split 2 2]"
  using make_comms_fails_iff[of True 4 "world 1 0" "world 6 2"]
        make_comms_fails_iff[of True 3 "world 1 0" "world 6 2"]
  by (simp add: Get_size_world Get_rank_world color_floordiv_def color_mod_def key_rank_def)

subsection \<open>Which split gives which group\<close>

text \<open>
  Claim C1, as amended. In a world of \<open>n_proc\<close> processes whose size is a multiple of the
  role count, the build makes, for the process of global rank \<open>g\<close>, the strata group by
  splitting with colour \<open>g div n_spcomms\<close> and key \<open>g\<close>, and the cylinder group by
  splitting with colour \<open>g mod n_spcomms\<close> and key \<open>g\<close>. So the processes with the
  same floor-division colour form a strata group, in which the process has rank
  \<open>g mod n_spcomms\<close>, and the processes with the same remainder form a cylinder group, in
  which it has rank \<open>g div n_spcomms\<close>.
\<close>

theorem make_comms_groups:
  assumes "g < n_proc" and "0 < n_spcomms" and "n_proc mod n_spcomms = 0"
  shows "make_comms True W n_spcomms (Some (world n_proc g)) =
           (Inr (Split (world n_proc g) (color_floordiv n_spcomms) key_rank,
                 Split (world n_proc g) (color_mod n_spcomms) key_rank),
            [Call_Get_size, Call_Get_rank,
             Call_Split (g div n_spcomms) g, Call_Split (g mod n_spcomms) g])
       \<and> members (Split (world n_proc g) (color_floordiv n_spcomms) key_rank)
           = filter (\<lambda>q. q div n_spcomms = g div n_spcomms) [0..<n_proc]
       \<and> members (Split (world n_proc g) (color_mod n_spcomms) key_rank)
           = filter (\<lambda>q. q mod n_spcomms = g mod n_spcomms) [0..<n_proc]
       \<and> Get_rank (Split (world n_proc g) (color_floordiv n_spcomms) key_rank) = g mod n_spcomms
       \<and> Get_rank (Split (world n_proc g) (color_mod n_spcomms) key_rank) = g div n_spcomms"
proof -
  have "make_comms True W n_spcomms (Some (world n_proc g)) =
           (Inr (Split (world n_proc g) (color_floordiv n_spcomms) key_rank,
                 Split (world n_proc g) (color_mod n_spcomms) key_rank),
            [Call_Get_size, Call_Get_rank,
             Call_Split (g div n_spcomms) g, Call_Split (g mod n_spcomms) g])"
    using assms
    by (simp add: make_comms_result Let_def Get_size_world Get_rank_world
          color_floordiv_def color_mod_def key_rank_def)
  moreover have "members (Split (world n_proc g) (color_floordiv n_spcomms) key_rank)
           = filter (\<lambda>q. q div n_spcomms = g div n_spcomms) [0..<n_proc]"
    using assms(1) by (simp add: members_Split_world color_floordiv_def)
  moreover have "members (Split (world n_proc g) (color_mod n_spcomms) key_rank)
           = filter (\<lambda>q. q mod n_spcomms = g mod n_spcomms) [0..<n_proc]"
    using assms(1) by (simp add: members_Split_world color_mod_def)
  ultimately show ?thesis
    using Get_rank_strata[OF assms] Get_rank_cylinder[OF assms] by simp
qed

theorem make_comms_groups_witness:
  "make_comms True (world 1 0) 3 (Some (world 6 4)) =
     (Inr (Split (world 6 4) (color_floordiv 3) key_rank, Split (world 6 4) (color_mod 3) key_rank),
      [Call_Get_size, Call_Get_rank, Call_Split 1 4, Call_Split 1 4])
   \<and> members (Split (world 6 4) (color_floordiv 3) key_rank) = [3, 4, 5]
   \<and> members (Split (world 6 4) (color_mod 3) key_rank) = [1, 4]
   \<and> Get_rank (Split (world 6 4) (color_floordiv 3) key_rank) = 1
   \<and> Get_rank (Split (world 6 4) (color_mod 3) key_rank) = 1"
proof -
  have f: "filter (\<lambda>q. q div 3 = Suc 0) [0..<6] = [3, 4, 5]"
          "filter (\<lambda>q. q mod 3 = Suc 0) [0..<6] = [Suc 0, 4]"
    by code_simp+
  show ?thesis
    using make_comms_groups[of 4 6 3 "world 1 0"] f by simp
qed

text \<open>
  The claim as it is written has the two groups the other way round. With four
  processes and two roles, the cylinder group of process 0 is \<open>[0, 2]\<close>, the split by
  remainder; the split by floor division is \<open>[0, 1]\<close>, and that is its strata group.
\<close>

theorem make_comms_groups_counterexample:
  "cylinder_members_of 2 4 0 = [0, 2]
   \<and> members (Split (world 4 0) (color_floordiv 2) key_rank) = [0, 1]
   \<and> cylinder_members_of 2 4 0 \<noteq> members (Split (world 4 0) (color_floordiv 2) key_rank)
   \<and> strata_members_of 2 4 0 \<noteq> members (Split (world 4 0) (color_mod 2) key_rank)"
  by code_simp

subsection \<open>The run-once guard\<close>

lemma run_on_comms_Returned_ran:
  "run_on_comms ev ws cl fc sc cc hist = (Returned u, ws', tr) \<Longrightarrow> ran ws'"
  unfolding run_on_comms_def Let_def
  by (auto split: if_splits sum.splits pyval.splits prod.splits option.splits)

lemma run_Returned_ran:
  assumes "run ev cw ws = (Returned u, ws', tr)"
  shows "ran ws'"
proof -
  from assms show ?thesis
    unfolding run_def Let_def
    by (auto split: if_splits sum.splits prod.splits option.splits dest: run_on_comms_Returned_ran)
qed

lemma run_ran:
  "ran ws \<Longrightarrow> run ev cw ws = (Raised (RuntimeError ''WheelSpinner can only be run once''), ws, [])"
  by (simp add: run_def)

lemma write_solution_state: "fst (snd (write_solution c ev ws)) = ws"
  unfolding write_solution_def
  by (auto split: prod.splits outcome.splits option.splits)

lemma local_nonant_cache_state: "fst (snd (local_nonant_cache ws)) = ws"
  unfolding local_nonant_cache_def
  by (auto split: option.splits sum.splits)

lemma on_hub_state: "fst (snd (on_hub ws)) = ws"
  unfolding on_hub_def by (auto split: option.splits)

lemma lift_unit_state: "fst (snd (lift_unit r)) = fst (snd r)"
  unfolding lift_unit_def by (auto split: prod.splits outcome.splits)

lemma invoke_preserves_ran:
  assumes "ran ws"
  shows "ran (fst (snd (invoke ev name a ws)))"
  using assms unfolding invoke_def spin_def write_first_stage_solution_def write_tree_solution_def
  by (auto simp: run_ran lift_unit_state write_solution_state local_nonant_cache_state on_hub_state
           split: prod.splits outcome.splits)

lemma invoke_all_preserves_ran:
  "ran ws \<Longrightarrow> ran (invoke_all ev calls ws)"
  by (induction calls arbitrary: ws) (auto simp: invoke_preserves_ran)

lemma ex_run_returns: "fst (run ex_env (Some (world 4 2)) ex_ws) = Returned ()"
  by code_simp

lemma triple_eqI: "fst r = a \<Longrightarrow> r = (a, fst (snd r), snd (snd r))"
  by (cases r) auto

text \<open>
  Claim C5. Once \<open>run\<close> has returned on an instance, whatever methods are called on the
  instance afterwards, a later call of \<open>run\<close> or of \<open>spin\<close> raises
  \<open>RuntimeError\<close>, leaves the instance as it is and makes no external call: nothing of
  the run is performed a second time. (\<open>spin\<close> is \<open>run\<close>, so the first completed call
  may be either.)
\<close>

theorem run_only_once:
  assumes "fst (run ev1 cw1 ws) = Returned ()"
  shows "run ev3 cw3 (invoke_all ev2 calls (fst (snd (run ev1 cw1 ws))))
           = (Raised (RuntimeError ''WheelSpinner can only be run once''),
              invoke_all ev2 calls (fst (snd (run ev1 cw1 ws))), [])
       \<and> spin ev3 cw3 (invoke_all ev2 calls (fst (snd (run ev1 cw1 ws))))
           = (Raised (RuntimeError ''WheelSpinner can only be run once''),
              invoke_all ev2 calls (fst (snd (run ev1 cw1 ws))), [])"
proof -
  obtain u ws' tr where r: "run ev1 cw1 ws = (u, ws', tr)" by (cases "run ev1 cw1 ws")
  with assms have "run ev1 cw1 ws = (Returned (), ws', tr)" by simp
  then have "ran ws'" by (rule run_Returned_ran)
  then have "ran (invoke_all ev2 calls ws')" by (rule invoke_all_preserves_ran)
  then show ?thesis using r by (simp add: spin_def run_ran)
qed

theorem run_only_once_witness:
  "fst (run ex_env (Some (world 4 2)) ex_ws) = Returned ()
   \<and> fst (run ex_env None
          (invoke_all ex_env [(''on_hub'', NoArg)] (fst (snd (run ex_env (Some (world 4 2)) ex_ws)))))
       = Raised (RuntimeError ''WheelSpinner can only be run once'')
   \<and> snd (snd (spin ex_env None
          (invoke_all ex_env [(''on_hub'', NoArg)] (fst (snd (run ex_env (Some (world 4 2)) ex_ws))))))
       = []"
  using run_only_once[OF ex_run_returns, of ex_env None ex_env "[(''on_hub'', NoArg)]"] ex_run_returns
  by simp

subsection \<open>Queries before the run\<close>

lemma invoke_best_inner_bound:
  "invoke ev ''best_inner_bound'' a ws = (Raised (AttributeError ''best_inner_bound''), ws, [])"
  by (simp add: invoke_def instance_attributes_def)

lemma invoke_best_outer_bound:
  "invoke ev ''best_outer_bound'' a ws = (Raised (AttributeError ''best_outer_bound''), ws, [])"
  by (simp add: invoke_def instance_attributes_def)

lemma write_solution_before_run:
  "\<not> ran ws \<Longrightarrow> write_solution c ev ws =
     (Raised (RuntimeError ''Need to call WheelSpinner.run() before querying solutions.''), ws, [])"
  by (simp add: write_solution_def)

lemma local_nonant_cache_before_run:
  "\<not> ran ws \<Longrightarrow> local_nonant_cache ws =
     (Raised (RuntimeError ''Need to call WheelSpinner.run() before querying solutions.''), ws, [])"
  by (simp add: local_nonant_cache_def)

lemma invoke_write_first_stage_solution:
  "invoke ev ''write_first_stage_solution'' a ws = write_first_stage_solution ev (arg_str a) ws"
  by (simp add: invoke_def)

lemma invoke_write_tree_solution:
  "invoke ev ''write_tree_solution'' a ws = write_tree_solution ev (arg_str a) ws"
  by (simp add: invoke_def)

lemma invoke_local_nonant_cache:
  "invoke ev ''local_nonant_cache'' a ws = local_nonant_cache ws"
  by (simp add: invoke_def)

text \<open>
  Claim C6. On an instance whose \<open>_ran\<close> flag is not set, calling any of
  \<open>best_inner_bound\<close>, \<open>best_outer_bound\<close>, \<open>write_first_stage_solution\<close>,
  \<open>write_tree_solution\<close> and \<open>local_nonant_cache\<close> raises, leaves the instance
  unchanged and makes no external call. The three methods the class defines raise the
  \<open>RuntimeError\<close> of their guard; the class defines no method \<open>best_inner_bound\<close> or
  \<open>best_outer_bound\<close> (the bounds are the attributes \<open>BestInnerBound\<close> and
  \<open>BestOuterBound\<close>, which \<open>run\<close> assigns), so these two calls raise
  \<open>AttributeError\<close>.
\<close>

theorem query_before_run_fails:
  assumes "\<not> ran ws"
    and "name \<in> {''best_inner_bound'', ''best_outer_bound'', ''write_first_stage_solution'',
                 ''write_tree_solution'', ''local_nonant_cache''}"
  shows "invoke ev name a ws =
          (Raised (if name = ''best_inner_bound'' \<or> name = ''best_outer_bound''
                   then AttributeError name
                   else RuntimeError ''Need to call WheelSpinner.run() before querying solutions.''),
           ws, [])"
proof -
  from assms(2) have "name = ''best_inner_bound'' \<or> name = ''best_outer_bound''
      \<or> name = ''write_first_stage_solution'' \<or> name = ''write_tree_solution''
      \<or> name = ''local_nonant_cache''"
    by (simp only: insert_iff empty_iff simp_thms)
  then show ?thesis
  proof (elim disjE)
    assume "name = ''best_inner_bound''"
    then show ?thesis by (simp only: invoke_best_inner_bound simp_thms if_True)
  next
    assume "name = ''best_outer_bound''"
    then show ?thesis by (simp only: invoke_best_outer_bound simp_thms if_True)
  next
    assume n: "name = ''write_first_stage_solution''"
    have "invoke ev name a ws = (Raised (RuntimeError ''Need to call WheelSpinner.run() before querying solutions.''), ws, [])"
      unfolding n invoke_write_first_stage_solution write_first_stage_solution_def
      by (rule write_solution_before_run[OF assms(1)])
    moreover have "\<not> (name = ''best_inner_bound'' \<or> name = ''best_outer_bound'')"
      unfolding n by simp
    ultimately show ?thesis by (simp only: if_False)
  next
    assume n: "name = ''write_tree_solution''"
    have "invoke ev name a ws = (Raised (RuntimeError ''Need to call WheelSpinner.run() before querying solutions.''), ws, [])"
      unfolding n invoke_write_tree_solution write_tree_solution_def
      by (rule write_solution_before_run[OF assms(1)])
    moreover have "\<not> (name = ''best_inner_bound'' \<or> name = ''best_outer_bound'')"
      unfolding n by simp
    ultimately show ?thesis by (simp only: if_False)
  next
    assume n: "name = ''local_nonant_cache''"
    have "invoke ev name a ws = (Raised (RuntimeError ''Need to call WheelSpinner.run() before querying solutions.''), ws, [])"
      unfolding n invoke_local_nonant_cache
      by (rule local_nonant_cache_before_run[OF assms(1)])
    moreover have "\<not> (name = ''best_inner_bound'' \<or> name = ''best_outer_bound'')"
      unfolding n by simp
    ultimately show ?thesis by (simp only: if_False)
  qed
qed

theorem query_before_run_fails_witness:
  "\<not> ran ex_ws
   \<and> invoke ex_env ''write_first_stage_solution'' (StrArg ''sol.csv'') ex_ws =
       (Raised (RuntimeError ''Need to call WheelSpinner.run() before querying solutions.''), ex_ws, [])"
proof -
  have r: "\<not> ran ex_ws" by (simp add: ex_ws_def)
  have n: "''write_first_stage_solution'' \<in> {''best_inner_bound'', ''best_outer_bound'',
             ''write_first_stage_solution'', ''write_tree_solution'', ''local_nonant_cache''}"
    by simp
  show ?thesis
    using query_before_run_fails[OF r n, of ex_env "StrArg ''sol.csv''"] r by simp
qed

subsection \<open>The hub is the process of strata rank 0\<close>

lemma check_spokes_length:
  "check_spokes xs = (e, ys) \<Longrightarrow> length ys = length xs"
  by (induction xs arbitrary: e ys) (auto simp: Let_def split: if_splits prod.splits)

lemma run_on_comms_Returned:
  assumes "run_on_comms ev ws cl fc sc cc hist = (Returned (), ws', tr)"
  shows "Get_rank sc < length cl
       \<and> strata_rank ws' = Some (Get_rank sc)
       \<and> cylinder_rank ws' = Some (Get_rank cc)
       \<and> global_rank ws' = Some (Get_rank fc)
       \<and> (\<exists>kw. map_of (cl ! Get_rank sc) ''opt_kwargs'' = Some (PyDict kw)
             \<and> spcomm_dict ws' = Some (AList.update ''opt_kwargs'' (PyDict (AList.update ''mpicomm'' (PyComm cc) kw)) (cl ! Get_rank sc))
             \<and> hub_dict ws' = hd (cl[Get_rank sc := AList.update ''opt_kwargs'' (PyDict (AList.update ''mpicomm'' (PyComm cc) kw)) (cl ! Get_rank sc)]))"
  using assms unfolding run_on_comms_def Let_def lookup_def
  by (auto split: if_splits sum.splits pyval.splits prod.splits option.splits)

lemma run_Returned_world:
  assumes ev: "haveMPI ev" and g: "g < n_proc"
    and m: "n_proc mod Suc (length (list_of_spoke_dict ws)) = 0"
    and r: "run ev (Some (world n_proc g)) ws = (Returned (), ws', tr)"
  shows "\<exists>spokes hist.
           check_spokes (list_of_spoke_dict ws) = (None, spokes)
         \<and> contains ''hub_class'' (hub_dict ws)
         \<and> run_on_comms ev
             (ws\<lparr>hub_dict := convert_keys key_conversion (setdefault_empty ''opt_kwargs'' (setdefault_empty ''hub_kwargs'' (hub_dict ws))),
                 list_of_spoke_dict := map (convert_keys key_conversion) spokes\<rparr>)
             (convert_keys key_conversion (setdefault_empty ''opt_kwargs'' (setdefault_empty ''hub_kwargs'' (hub_dict ws)))
                # map (convert_keys key_conversion) spokes)
             (world n_proc g)
             (Split (world n_proc g) (color_floordiv (Suc (length (list_of_spoke_dict ws)))) key_rank)
             (Split (world n_proc g) (color_mod (Suc (length (list_of_spoke_dict ws)))) key_rank)
             hist = (Returned (), ws', tr)"
proof -
  from r have nr: "\<not> ran ws" and hc: "contains ''hub_class'' (hub_dict ws)"
    and oc: "contains ''opt_class'' (hub_dict ws)"
    unfolding run_def by (auto split: if_splits)
  obtain e spokes where cs: "check_spokes (list_of_spoke_dict ws) = (e, spokes)"
    by (cases "check_spokes (list_of_spoke_dict ws)")
  from r nr hc oc cs have e: "e = None"
    unfolding run_def Let_def by (auto split: option.splits)
  have len: "length spokes = length (list_of_spoke_dict ws)"
    using cs by (rule check_spokes_length)
  have mc: "make_comms (haveMPI ev) (COMM_WORLD ev) (Suc (length spokes)) (Some (world n_proc g))
            = (Inr (Split (world n_proc g) (color_floordiv (Suc (length spokes))) key_rank,
                    Split (world n_proc g) (color_mod (Suc (length spokes))) key_rank),
               [Call_Get_size, Call_Get_rank,
                Call_Split (color_floordiv (Suc (length spokes)) (Get_rank (world n_proc g))) (key_rank (Get_rank (world n_proc g))),
                Call_Split (color_mod (Suc (length spokes)) (Get_rank (world n_proc g))) (key_rank (Get_rank (world n_proc g)))])"
    using ev m len by (simp add: make_comms_result Get_size_world Let_def)
  from r nr hc oc cs e mc show ?thesis
    unfolding run_def Let_def by (simp add: len) blast
qed

lemma map_of_setdefault_empty:
  "map_of (setdefault_empty k d) k' =
     (if k' = k \<and> map_of d k = None then Some (PyDict []) else map_of d k')"
  by (simp add: setdefault_empty_def contains_def update_conv')

lemma map_of_move_key_other:
  "k \<noteq> newk \<Longrightarrow> k \<noteq> oldk \<Longrightarrow> map_of (move_key oldk newk d) k = map_of d k"
  by (simp add: move_key_def update_conv' delete_conv' split: option.splits)

lemma map_of_move_key_new:
  "newk \<noteq> oldk \<Longrightarrow> map_of (move_key oldk newk d) newk =
     (case map_of d oldk of None \<Rightarrow> map_of d newk | Some v \<Rightarrow> Some v)"
  by (simp add: move_key_def update_conv' delete_conv' split: option.splits)

lemma move_key_absent: "map_of d oldk = None \<Longrightarrow> move_key oldk newk d = d"
  by (simp add: move_key_def)

lemma convert_keys_unfold:
  "convert_keys key_conversion d =
     move_key ''spoke_kwargs'' ''spcomm_kwargs''
       (move_key ''spoke_class'' ''spcomm_class''
         (move_key ''hub_kwargs'' ''spcomm_kwargs''
           (move_key ''hub_class'' ''spcomm_class'' d)))"
  by (simp add: key_conversion_def)

lemma convert_keys_spcomm_class:
  assumes "map_of d ''spoke_class'' = None"
  shows "map_of (convert_keys key_conversion d) ''spcomm_class'' =
          (case map_of d ''hub_class'' of None \<Rightarrow> map_of d ''spcomm_class'' | Some v \<Rightarrow> Some v)"
proof -
  let ?d1 = "move_key ''hub_class'' ''spcomm_class'' d"
  let ?d2 = "move_key ''hub_kwargs'' ''spcomm_kwargs'' ?d1"
  have "map_of ?d1 ''spoke_class'' = None"
    using assms by (subst map_of_move_key_other) simp_all
  then have "map_of ?d2 ''spoke_class'' = None"
    by (subst map_of_move_key_other) simp_all
  then have d3: "move_key ''spoke_class'' ''spcomm_class'' ?d2 = ?d2"
    by (rule move_key_absent)
  have "map_of (convert_keys key_conversion d) ''spcomm_class'' = map_of ?d2 ''spcomm_class''"
    unfolding convert_keys_unfold d3 by (subst map_of_move_key_other) simp_all
  also have "\<dots> = map_of ?d1 ''spcomm_class''"
    by (subst map_of_move_key_other) simp_all
  also have "\<dots> = (case map_of d ''hub_class'' of None \<Rightarrow> map_of d ''spcomm_class'' | Some v \<Rightarrow> Some v)"
    by (subst map_of_move_key_new) simp_all
  finally show ?thesis .
qed

lemma convert_keys_spcomm_kwargs:
  assumes "map_of d ''spoke_kwargs'' = None"
  shows "map_of (convert_keys key_conversion d) ''spcomm_kwargs'' =
          (case map_of d ''hub_kwargs'' of None \<Rightarrow> map_of d ''spcomm_kwargs'' | Some v \<Rightarrow> Some v)"
proof -
  let ?d1 = "move_key ''hub_class'' ''spcomm_class'' d"
  let ?d2 = "move_key ''hub_kwargs'' ''spcomm_kwargs'' ?d1"
  let ?d3 = "move_key ''spoke_class'' ''spcomm_class'' ?d2"
  have "map_of ?d1 ''spoke_kwargs'' = None"
    using assms by (subst map_of_move_key_other) simp_all
  then have "map_of ?d2 ''spoke_kwargs'' = None"
    by (subst map_of_move_key_other) simp_all
  then have "map_of ?d3 ''spoke_kwargs'' = None"
    by (subst map_of_move_key_other) simp_all
  then have d4: "move_key ''spoke_kwargs'' ''spcomm_kwargs'' ?d3 = ?d3"
    by (rule move_key_absent)
  have "map_of (convert_keys key_conversion d) ''spcomm_kwargs'' = map_of ?d2 ''spcomm_kwargs''"
    unfolding convert_keys_unfold d4 by (subst map_of_move_key_other) simp_all
  also have "\<dots> = (case map_of ?d1 ''hub_kwargs'' of None \<Rightarrow> map_of ?d1 ''spcomm_kwargs'' | Some v \<Rightarrow> Some v)"
    by (subst map_of_move_key_new) simp_all
  also have "map_of ?d1 ''hub_kwargs'' = map_of d ''hub_kwargs''"
    by (subst map_of_move_key_other) simp_all
  also have "map_of ?d1 ''spcomm_kwargs'' = map_of d ''spcomm_kwargs''"
    by (subst map_of_move_key_other) simp_all
  finally show ?thesis .
qed

lemma run_hub_dict:
  assumes ev: "haveMPI ev" and g: "g < n_proc"
    and m: "n_proc mod Suc (length (list_of_spoke_dict ws)) = 0"
    and r: "run ev (Some (world n_proc g)) ws = (Returned (), ws', tr)"
  shows "strata_rank ws' = Some (g mod Suc (length (list_of_spoke_dict ws)))"
    and "cylinder_rank ws' = Some (g div Suc (length (list_of_spoke_dict ws)))"
    and "global_rank ws' = Some g"
    and "g mod Suc (length (list_of_spoke_dict ws)) = 0 \<Longrightarrow> spcomm_dict ws' = Some (hub_dict ws')"
    and "g mod Suc (length (list_of_spoke_dict ws)) = 0 \<Longrightarrow> \<not> contains ''spoke_class'' (hub_dict ws) \<Longrightarrow>
           map_of (hub_dict ws') ''spcomm_class'' = map_of (hub_dict ws) ''hub_class''"
    and "g mod Suc (length (list_of_spoke_dict ws)) = 0 \<Longrightarrow> \<not> contains ''spoke_kwargs'' (hub_dict ws) \<Longrightarrow>
           map_of (hub_dict ws') ''spcomm_kwargs'' =
             (case map_of (hub_dict ws) ''hub_kwargs'' of None \<Rightarrow> Some (PyDict []) | Some v \<Rightarrow> Some v)"
proof -
  let ?n = "Suc (length (list_of_spoke_dict ws))"
  let ?hd0 = "setdefault_empty ''opt_kwargs'' (setdefault_empty ''hub_kwargs'' (hub_dict ws))"
  let ?sc = "Split (world n_proc g) (color_floordiv ?n) key_rank"
  let ?cc = "Split (world n_proc g) (color_mod ?n) key_rank"
  from run_Returned_world[OF ev g m r] obtain spokes hist ws1 where
    hc: "contains ''hub_class'' (hub_dict ws)" and
    roc: "run_on_comms ev ws1 (convert_keys key_conversion ?hd0 # map (convert_keys key_conversion) spokes)
            (world n_proc g) ?sc ?cc hist = (Returned (), ws', tr)"
    by blast
  have pos: "0 < ?n" by simp
  note R = run_on_comms_Returned[OF roc]
  have sr: "Get_rank ?sc = g mod ?n" by (rule Get_rank_strata[OF g pos m])
  have cr: "Get_rank ?cc = g div ?n" by (rule Get_rank_cylinder[OF g pos m])
  show "strata_rank ws' = Some (g mod ?n)" using R sr by simp
  show "cylinder_rank ws' = Some (g div ?n)" using R cr by simp
  show "global_rank ws' = Some g" using R Get_rank_world[OF g] by simp
  {
    assume z: "g mod ?n = 0"
    from R sr z obtain kw where
      sd: "spcomm_dict ws' = Some (AList.update ''opt_kwargs'' (PyDict (AList.update ''mpicomm'' (PyComm ?cc) kw)) (convert_keys key_conversion ?hd0))"
      and hd': "hub_dict ws' = AList.update ''opt_kwargs'' (PyDict (AList.update ''mpicomm'' (PyComm ?cc) kw)) (convert_keys key_conversion ?hd0)"
      by auto
    show "spcomm_dict ws' = Some (hub_dict ws')" using sd hd' by simp
    {
      assume ns: "\<not> contains ''spoke_class'' (hub_dict ws)"
      then have "map_of ?hd0 ''spoke_class'' = None"
        by (simp add: map_of_setdefault_empty contains_def)
      from convert_keys_spcomm_class[OF this]
      have "map_of (convert_keys key_conversion ?hd0) ''spcomm_class'' = map_of (hub_dict ws) ''hub_class''"
        using hc by (auto simp: map_of_setdefault_empty contains_def)
      then show "map_of (hub_dict ws') ''spcomm_class'' = map_of (hub_dict ws) ''hub_class''"
        unfolding hd' by (simp add: update_conv')
    }
    {
      assume ns: "\<not> contains ''spoke_kwargs'' (hub_dict ws)"
      then have "map_of ?hd0 ''spoke_kwargs'' = None"
        by (simp add: map_of_setdefault_empty contains_def)
      from convert_keys_spcomm_kwargs[OF this]
      have "map_of (convert_keys key_conversion ?hd0) ''spcomm_kwargs'' =
              (case map_of (hub_dict ws) ''hub_kwargs'' of None \<Rightarrow> Some (PyDict []) | Some v \<Rightarrow> Some v)"
        by (auto simp: map_of_setdefault_empty split: option.splits)
      then show "map_of (hub_dict ws') ''spcomm_kwargs'' =
              (case map_of (hub_dict ws) ''hub_kwargs'' of None \<Rightarrow> Some (PyDict []) | Some v \<Rightarrow> Some v)"
        unfolding hd' by (simp add: update_conv')
    }
  }
qed

text \<open>
  Claim C7, as amended. In a valid configuration (the world size a multiple of the role
  count, which is one more than the number of spokes), exactly one process of every
  strata group has strata rank 0. A process on which \<open>run\<close> returns has the strata rank
  \<open>g mod n_spcomms\<close>; if that is 0, the dictionary assigned to it is the hub dictionary,
  the first of the communicator list: its \<open>spcomm_class\<close> is the hub class and its
  \<open>spcomm_kwargs\<close> the hub keyword arguments (empty if none were given), provided the hub
  dictionary has no spoke keys. Every process, whatever its strata rank, gets a cylinder
  group of the same size, \<open>n_proc div n_spcomms\<close>.
\<close>

theorem hub_at_strata_rank_zero:
  assumes "haveMPI ev" and "g < n_proc" and "q < n_proc"
    and "n_proc mod Suc (length (list_of_spoke_dict ws)) = 0"
    and "run ev (Some (world n_proc g)) ws = (Returned (), ws', tr)"
  shows "length (hubs_in (Suc (length (list_of_spoke_dict ws))) n_proc
                  (strata_members_of (Suc (length (list_of_spoke_dict ws))) n_proc g)) = 1
       \<and> strata_rank_of (Suc (length (list_of_spoke_dict ws))) n_proc g
           = Some (g mod Suc (length (list_of_spoke_dict ws)))
       \<and> strata_rank ws' = strata_rank_of (Suc (length (list_of_spoke_dict ws))) n_proc g
       \<and> (strata_rank ws' = Some 0 \<longrightarrow>
            spcomm_dict ws' = Some (hub_dict ws')
            \<and> (\<not> contains ''spoke_class'' (hub_dict ws) \<longrightarrow>
                 map_of (hub_dict ws') ''spcomm_class'' = map_of (hub_dict ws) ''hub_class'')
            \<and> (\<not> contains ''spoke_kwargs'' (hub_dict ws) \<longrightarrow>
                 map_of (hub_dict ws') ''spcomm_kwargs'' =
                   (case map_of (hub_dict ws) ''hub_kwargs'' of
                      None \<Rightarrow> Some (PyDict []) | Some v \<Rightarrow> Some v)))
       \<and> cylinder_size_of (Suc (length (list_of_spoke_dict ws))) n_proc q
           = Some (n_proc div Suc (length (list_of_spoke_dict ws)))
       \<and> cylinder_size_of (Suc (length (list_of_spoke_dict ws))) n_proc q
           = cylinder_size_of (Suc (length (list_of_spoke_dict ws))) n_proc g"
proof -
  let ?n = "Suc (length (list_of_spoke_dict ws))"
  have pos: "0 < ?n" by simp
  note H = run_hub_dict[OF assms(1,2,4,5)]
  have a: "length (hubs_in ?n n_proc (strata_members_of ?n n_proc g)) = 1"
    by (simp add: hubs_in_strata[OF assms(2) pos assms(4)])
  have b: "strata_rank_of ?n n_proc g = Some (g mod ?n)"
    by (rule strata_rank_of_valid[OF assms(2) pos assms(4)])
  have c: "strata_rank ws' = strata_rank_of ?n n_proc g"
    using H(1) b by simp
  have d: "strata_rank ws' = Some 0 \<Longrightarrow> g mod ?n = 0"
    using H(1) by simp
  have e: "cylinder_size_of ?n n_proc q = Some (n_proc div ?n)"
    by (rule cylinder_size_of_valid[OF assms(3) pos assms(4)])
  have f: "cylinder_size_of ?n n_proc g = Some (n_proc div ?n)"
    by (rule cylinder_size_of_valid[OF assms(2) pos assms(4)])
  show ?thesis
    using a b c e f H(4)[OF d] H(5)[OF d] H(6)[OF d] by simp
qed

theorem hub_at_strata_rank_zero_witness:
  "haveMPI ex_env \<and> run ex_env (Some (world 4 2)) ex_ws
      = (Returned (), fst (snd (run ex_env (Some (world 4 2)) ex_ws)),
         snd (snd (run ex_env (Some (world 4 2)) ex_ws)))
   \<and> length (hubs_in 2 4 (strata_members_of 2 4 2)) = 1
   \<and> strata_rank (fst (snd (run ex_env (Some (world 4 2)) ex_ws))) = Some 0
   \<and> spcomm_dict (fst (snd (run ex_env (Some (world 4 2)) ex_ws)))
       = Some (hub_dict (fst (snd (run ex_env (Some (world 4 2)) ex_ws))))
   \<and> map_of (hub_dict (fst (snd (run ex_env (Some (world 4 2)) ex_ws)))) ''spcomm_class''
       = Some (PyClass ''PHHub'')
   \<and> map_of (hub_dict (fst (snd (run ex_env (Some (world 4 2)) ex_ws)))) ''spcomm_kwargs''
       = Some (PyDict [])
   \<and> cylinder_size_of 2 4 1 = Some 2"
proof -
  have h: "haveMPI ex_env" by (simp add: ex_env_def)
  have m: "4 mod Suc (length (list_of_spoke_dict ex_ws)) = 0" by code_simp
  have r: "run ex_env (Some (world 4 2)) ex_ws
      = (Returned (), fst (snd (run ex_env (Some (world 4 2)) ex_ws)),
         snd (snd (run ex_env (Some (world 4 2)) ex_ws)))"
    by (rule triple_eqI[OF ex_run_returns])
  have l: "Suc (length (list_of_spoke_dict ex_ws)) = 2" by (simp add: ex_ws_def)
  have c: "\<not> contains ''spoke_class'' (hub_dict ex_ws)" "\<not> contains ''spoke_kwargs'' (hub_dict ex_ws)"
          "map_of (hub_dict ex_ws) ''hub_class'' = Some (PyClass ''PHHub'')"
          "map_of (hub_dict ex_ws) ''hub_kwargs'' = None"
    by (simp_all add: ex_ws_def ex_hub_dict_def contains_def)
  show ?thesis
    using hub_at_strata_rank_zero[OF h _ _ m r, of 1] h r c unfolding l by simp
qed

text \<open>
  The claim as it is written counts the processes of strata rank 0 in a cylinder group.
  With four processes and two roles, the cylinder group of process 0 is \<open>[0, 2]\<close> and both
  have strata rank 0; the cylinder group of process 1 has none.
\<close>

theorem hub_at_strata_rank_zero_counterexample:
  "hubs_in 2 4 (cylinder_members_of 2 4 0) = [0, 2]
   \<and> length (hubs_in 2 4 (cylinder_members_of 2 4 0)) \<noteq> 1
   \<and> length (hubs_in 2 4 (cylinder_members_of 2 4 1)) \<noteq> 1"
  by code_simp

subsection \<open>Bounded retries of \<open>set_instance\<close>\<close>











subsection \<open>Feasible and infeasible probability\<close>

lemma fold_added:
  "foldl (\<lambda>acc (k, s). if P s then dadd acc (mpisppy_probability s) else acc) a xs
     = foldl dadd a (added P xs)"
  by (induction xs arbitrary: a) (auto simp: added_def)

lemma local_feas_added: "local_feas xs = dsum (added scenario_feasible xs)"
  unfolding local_feas_def dsum_def by (rule fold_added)

lemma local_infeas_added: "local_infeas xs = dsum (added (\<lambda>s. \<not> scenario_feasible s) xs)"
  unfolding local_infeas_def dsum_def by (rule fold_added)

lemma local_P_added: "local_P xs = dsum (added (\<lambda>s. True) xs)"
proof -
  have "foldl (\<lambda>localP (k, s). dadd localP (mpisppy_probability s)) (Fin 0 0) xs
        = foldl (\<lambda>acc (k, s). if True then dadd acc (mpisppy_probability s) else acc) (Fin 0 0) xs"
    by simp
  also have "\<dots> = foldl dadd (Fin 0 0) (added (\<lambda>s. True) xs)" by (rule fold_added)
  finally show ?thesis unfolding local_P_def dsum_def .
qed

lemma added_lengths:
  "length (added scenario_feasible xs) + length (added (\<lambda>s. \<not> scenario_feasible s) xs) = length xs"
  unfolding added_def by (induction xs) auto

lemma added_all_feasible:
  assumes "list_all (\<lambda>(k, s). scenario_feasible s) xs"
  shows "added scenario_feasible xs = added (\<lambda>s. True) xs"
    and "added (\<lambda>s. \<not> scenario_feasible s) xs = []"
  using assms unfolding added_def by (induction xs) auto

lemma local_all_feasible:
  assumes "list_all (\<lambda>(k, s). scenario_feasible s) xs"
  shows "local_feas xs = local_P xs" and "local_infeas xs = Fin 0 0"
  unfolding local_feas_added local_P_added local_infeas_added added_all_feasible[OF assms]
  by (simp_all add: dsum_def)

lemma dadd_zero_zero: "dadd (Fin 0 0) (Fin 0 0) = Fin 0 0"
  by code_simp

lemma round_double_zero: "round_double 0 0 = Fin 0 0"
  by code_simp

lemma foldl_zeros: "list_all (\<lambda>x. x = Fin 0 0) zs \<Longrightarrow> foldl dadd (Fin 0 0) zs = Fin 0 0"
  by (induction zs) (simp_all add: round_double_zero)

lemma Allreduce_zeros: "list_all (\<lambda>x. x = Fin 0 0) zs \<Longrightarrow> Allreduce_SUM zs = Fin 0 0"
  by (cases zs) (simp_all add: foldl_zeros)

lemma feas_all_feasible:
  assumes "all_feasible ranks"
  shows "feas_prob ranks = update_E1 ranks" and "infeas_prob ranks = Fin 0 0"
proof -
  have "map local_feas ranks = map local_P ranks"
    using assms unfolding all_feasible_def
    by (induction ranks) (simp_all add: local_all_feasible)
  then show "feas_prob ranks = update_E1 ranks"
    unfolding feas_prob_def update_E1_def by (rule arg_cong)
  have "list_all (\<lambda>x. x = Fin 0 0) (map local_infeas ranks)"
    using assms unfolding all_feasible_def
    by (induction ranks) (simp_all add: local_all_feasible)
  then show "infeas_prob ranks = Fin 0 0" unfolding infeas_prob_def by (rule Allreduce_zeros)
qed

lemma strip_zeros_nonneg: "0 \<le> fst (strip_zeros m e)"
proof (induction m e rule: strip_zeros.induct)
  case (1 m e)
  show ?case by (subst strip_zeros.simps) (use 1 in auto)
qed

lemma round_mag_strip:
  "round_mag a e = Some p \<Longrightarrow> \<exists>q x. p = strip_zeros q x"
  unfolding round_mag_def Let_def
  by (metis option.distinct(1) option.inject)

lemma round_mag_nonneg: "round_mag a e = Some (m, e') \<Longrightarrow> 0 \<le> m"
proof -
  assume "round_mag a e = Some (m, e')"
  then obtain q x where "(m, e') = strip_zeros q x" using round_mag_strip by blast
  then have "m = fst (strip_zeros q x)" by (metis fst_conv)
  then show "0 \<le> m" using strip_zeros_nonneg by simp
qed

lemma round_double_not_negative: "0 \<le> a \<Longrightarrow> not_negative (round_double a e)"
  unfolding round_double_def
  by (auto split: option.splits dest: round_mag_nonneg)

lemma dadd_not_negative:
  "not_negative x \<Longrightarrow> not_negative y \<Longrightarrow> not_negative (dadd x y)"
proof (cases x; cases y)
  fix m1 e1 m2 e2
  assume x: "x = Fin m1 e1" and y: "y = Fin m2 e2" and nx: "not_negative x" and ny: "not_negative y"
  then have "0 \<le> m1 * 2 ^ nat (e1 - min e1 e2) + m2 * 2 ^ nat (e2 - min e1 e2)" by simp
  then show "not_negative (dadd x y)"
    unfolding x y by (simp add: Let_def round_double_not_negative)
qed simp_all

lemma is_probability_not_negative: "is_probability p \<Longrightarrow> not_negative p"
  by (cases p) simp_all

lemma foldl_not_negative:
  "not_negative a \<Longrightarrow> list_all not_negative ps \<Longrightarrow> not_negative (foldl dadd a ps)"
  by (induction ps arbitrary: a) (simp_all add: dadd_not_negative)

lemma added_not_negative:
  "list_all (\<lambda>(k, s). is_probability (mpisppy_probability s)) xs \<Longrightarrow> list_all not_negative (added P xs)"
  unfolding added_def by (induction xs) (auto simp: is_probability_not_negative)

lemma dsum_added_not_negative:
  "list_all (\<lambda>(k, s). is_probability (mpisppy_probability s)) xs \<Longrightarrow> not_negative (dsum (added P xs))"
  unfolding dsum_def by (rule foldl_not_negative) (simp_all add: added_not_negative)

lemma Allreduce_not_negative: "list_all not_negative zs \<Longrightarrow> not_negative (Allreduce_SUM zs)"
  by (cases zs) (simp_all add: foldl_not_negative)

lemma sums_not_negative:
  assumes "all_probabilities ranks"
  shows "not_negative (feas_prob ranks)" "not_negative (infeas_prob ranks)" "not_negative (update_E1 ranks)"
proof -
  have "\<And>P. list_all not_negative (map (\<lambda>xs. dsum (added P xs)) ranks)"
    using assms unfolding all_probabilities_def
    by (induction ranks) (simp_all add: dsum_added_not_negative)
  then have "\<And>P. not_negative (Allreduce_SUM (map (\<lambda>xs. dsum (added P xs)) ranks))"
    by (rule Allreduce_not_negative)
  then show "not_negative (feas_prob ranks)" "not_negative (infeas_prob ranks)" "not_negative (update_E1 ranks)"
    unfolding feas_prob_def infeas_prob_def update_E1_def
    by (simp_all add: local_feas_added[abs_def] local_infeas_added[abs_def] local_P_added[abs_def])
qed

lemma not_negative_not_NaN: "not_negative d \<Longrightarrow> d \<noteq> NaN"
  by (cases d) simp_all

text \<open>
  Claim C9, as amended. The sums are sums of doubles. \<open>feas_prob\<close> adds, in order, the
  probabilities of the feasible scenarios and nothing else, \<open>infeas_prob\<close> those of the
  infeasible scenarios and nothing else, and \<open>_update_E1\<close> all of them: each scenario's
  probability is added into exactly one of the two sums. When every scenario is
  feasible, \<open>feas_prob\<close> is \<open>E1\<close> and \<open>infeas_prob\<close> is 0; with probabilities that are
  finite and not negative none of the sums is \<open>nan\<close>, so these are equalities for
  Python too.
\<close>

theorem probability_partition:
  "feas_prob ranks = Allreduce_SUM (map (\<lambda>xs. dsum (added scenario_feasible xs)) ranks)
   \<and> infeas_prob ranks = Allreduce_SUM (map (\<lambda>xs. dsum (added (\<lambda>s. \<not> scenario_feasible s) xs)) ranks)
   \<and> update_E1 ranks = Allreduce_SUM (map (\<lambda>xs. dsum (added (\<lambda>s. True) xs)) ranks)
   \<and> map (\<lambda>xs. length (added scenario_feasible xs) + length (added (\<lambda>s. \<not> scenario_feasible s) xs)) ranks
       = map length ranks
   \<and> (all_feasible ranks \<longrightarrow> feas_prob ranks = update_E1 ranks \<and> infeas_prob ranks = Fin 0 0)
   \<and> (all_probabilities ranks \<longrightarrow>
         feas_prob ranks \<noteq> NaN \<and> infeas_prob ranks \<noteq> NaN \<and> update_E1 ranks \<noteq> NaN)"
proof -
  have a: "feas_prob ranks = Allreduce_SUM (map (\<lambda>xs. dsum (added scenario_feasible xs)) ranks)"
    unfolding feas_prob_def by (simp add: local_feas_added[abs_def])
  have b: "infeas_prob ranks = Allreduce_SUM (map (\<lambda>xs. dsum (added (\<lambda>s. \<not> scenario_feasible s) xs)) ranks)"
    unfolding infeas_prob_def by (simp add: local_infeas_added[abs_def])
  have c: "update_E1 ranks = Allreduce_SUM (map (\<lambda>xs. dsum (added (\<lambda>s. True) xs)) ranks)"
    unfolding update_E1_def by (simp add: local_P_added[abs_def])
  have d: "map (\<lambda>xs. length (added scenario_feasible xs) + length (added (\<lambda>s. \<not> scenario_feasible s) xs)) ranks
       = map length ranks"
    by (simp add: added_lengths)
  have e: "all_feasible ranks \<longrightarrow> feas_prob ranks = update_E1 ranks \<and> infeas_prob ranks = Fin 0 0"
    using feas_all_feasible by blast
  have f: "all_probabilities ranks \<longrightarrow>
         feas_prob ranks \<noteq> NaN \<and> infeas_prob ranks \<noteq> NaN \<and> update_E1 ranks \<noteq> NaN"
    using sums_not_negative not_negative_not_NaN by blast
  show ?thesis
    by (intro conjI; fact a b c d e f)
qed

theorem probability_partition_witness:
  "all_feasible ex_ranks_feasible \<and> all_probabilities ex_ranks_feasible
   \<and> feas_prob ex_ranks_feasible = update_E1 ex_ranks_feasible
   \<and> update_E1 ex_ranks_feasible = d_1
   \<and> infeas_prob ex_ranks_feasible = Fin 0 0
   \<and> feas_prob ex_ranks_feasible \<noteq> NaN"
proof -
  have a: "all_feasible ex_ranks_feasible" "all_probabilities ex_ranks_feasible"
          "update_E1 ex_ranks_feasible = d_1"
    by code_simp+
  note P = probability_partition[of ex_ranks_feasible]
  note e = P[THEN conjunct2, THEN conjunct2, THEN conjunct2, THEN conjunct2, THEN conjunct1, rule_format, OF a(1)]
  note f = P[THEN conjunct2, THEN conjunct2, THEN conjunct2, THEN conjunct2, THEN conjunct2, rule_format, OF a(2)]
  show ?thesis
    by (intro conjI; fact a e[THEN conjunct1] e[THEN conjunct2] f[THEN conjunct1])
qed

text \<open>
  The claim as it is written fails in three ways. With the probabilities 0.1
  (feasible), 0.2 and 0.7 (infeasible) the two sums add up to the double below 1 while
  \<open>E1\<close> is 1. With 1 (feasible) and \<open>2 ^ (- 60)\<close> (infeasible), \<open>feas_prob\<close> is \<open>E1\<close>
  although a scenario is infeasible. With 1 (feasible) and 0 (infeasible),
  \<open>infeas_prob\<close> is 0 although a scenario is infeasible.
\<close>

theorem probability_partition_counterexample:
  "dadd (feas_prob ex_ranks_rounding) (infeas_prob ex_ranks_rounding) \<noteq> update_E1 ex_ranks_rounding
   \<and> update_E1 ex_ranks_rounding = d_1
   \<and> dadd (feas_prob ex_ranks_rounding) (infeas_prob ex_ranks_rounding) = Fin 9007199254740991 (- 53)
   \<and> feas_prob ex_ranks_tiny = update_E1 ex_ranks_tiny \<and> \<not> all_feasible ex_ranks_tiny
   \<and> infeas_prob ex_ranks_zero = Fin 0 0 \<and> \<not> all_feasible ex_ranks_zero"
  by code_simp

subsection \<open>Save and restore of the non-anticipative variables\<close>











end
